theory Spec2Isabelle
  imports Main "HOL-Library.Sublist" "HOL-Library.Char_ord" "HOL-Library.List_Lexorder"
    "HOL-Library.Multiset"
    "HOL-Library.Word"
begin

section \<open>Python strings\<close>

definition ord :: "char \<Rightarrow> nat" where
  "ord c = of_char c"

definition lower_chr :: "char \<Rightarrow> char" where
  "lower_chr c =
     (if (65 \<le> ord c \<and> ord c \<le> 90) \<or> (192 \<le> ord c \<and> ord c \<le> 222 \<and> ord c \<noteq> 215)
      then char_of (ord c + 32) else c)"

definition lower :: "string \<Rightarrow> string" where
  "lower s = map lower_chr s"

definition is_space :: "char \<Rightarrow> bool" where
  "is_space c = ((9 \<le> ord c \<and> ord c \<le> 13) \<or> (28 \<le> ord c \<and> ord c \<le> 32)
     \<or> ord c = 133 \<or> ord c = 160)"

definition strip :: "string \<Rightarrow> string" where
  "strip s = rev (dropWhile is_space (rev (dropWhile is_space s)))"

definition startswith :: "string \<Rightarrow> string \<Rightarrow> bool" where
  "startswith s p = prefix p s"

definition endswith :: "string \<Rightarrow> string \<Rightarrow> bool" where
  "endswith s p = suffix p s"

fun split_chr :: "char \<Rightarrow> string \<Rightarrow> string list" where
  "split_chr sep [] = [[]]"
| "split_chr sep (c # cs) =
     (if c = sep then [] # split_chr sep cs
      else (case split_chr sep cs of w # ws \<Rightarrow> (c # w) # ws | [] \<Rightarrow> [[c]]))"

definition replace_chr :: "char \<Rightarrow> char \<Rightarrow> string \<Rightarrow> string" where
  "replace_chr old new s = map (\<lambda>c. if c = old then new else c) s"

fun join :: "string \<Rightarrow> string list \<Rightarrow> string" where
  "join sep [] = []"
| "join sep [x] = x"
| "join sep (x # y # ys) = x @ sep @ join sep (y # ys)"

definition digit_chr :: "nat \<Rightarrow> char" where
  "digit_chr d = char_of (48 + d)"

fun str_nat :: "nat \<Rightarrow> string" where
  "str_nat n = (if n < 10 then [digit_chr n] else str_nat (n div 10) @ [digit_chr (n mod 10)])"

declare str_nat.simps [simp del]

definition is_digit :: "char \<Rightarrow> bool" where
  "is_digit c = (48 \<le> ord c \<and> ord c \<le> 57)"

section \<open>Regular expressions of the scripts\<close>

definition is_sep :: "char \<Rightarrow> bool" where
  "is_sep c = (c = CHR ''-'' \<or> c = CHR ''_'' \<or> c = CHR ''.'')"

function sub_seps :: "string \<Rightarrow> string" where
  "sub_seps [] = []"
| "sub_seps (c # cs) =
     (if is_sep c then CHR ''-'' # sub_seps (dropWhile is_sep cs) else c # sub_seps cs)"
  by pat_completeness auto
termination
  by (relation "measure length") (auto simp: le_imp_less_Suc length_dropWhile_le)

fun version_follows :: "string \<Rightarrow> bool" where
  "version_follows (a # b # _) = (a = CHR ''-'' \<and> is_digit b)"
| "version_follows _ = False"

fun match_sdist :: "string \<Rightarrow> string option" where
  "match_sdist [] = None"
| "match_sdist (c # cs) =
     (if c = CHR 0x0A then None
      else if version_follows cs then Some [c]
      else map_option ((#) c) (match_sdist cs))"

definition is_token_chr :: "char \<Rightarrow> bool" where
  "is_token_chr c = ((97 \<le> ord c \<and> ord c \<le> 122) \<or> (65 \<le> ord c \<and> ord c \<le> 90)
     \<or> (48 \<le> ord c \<and> ord c \<le> 57)
     \<or> c = CHR ''_'' \<or> c = CHR ''.'' \<or> c = CHR ''-'' \<or> c = CHR ''['' \<or> c = CHR '']'')"

definition match_token :: "string \<Rightarrow> string option" where
  "match_token req = (let tok = takeWhile is_token_chr req in if tok = [] then None else Some tok)"

section \<open>generate_index.py\<close>

definition normalize :: "string \<Rightarrow> string" where
  "normalize name = lower (sub_seps name)"

definition extract_package_name :: "string \<Rightarrow> string option" where
  "extract_package_name filename =
     (if endswith filename ''.whl'' then Some (normalize (hd (split_chr CHR ''-'' filename)))
      else if endswith filename ''.tar.gz'' then map_option normalize (match_sdist filename)
      else if endswith filename ''.zip'' then map_option normalize (match_sdist filename)
      else None)"

type_synonym bytes = "8 word list"

function read_chunks :: "bytes \<Rightarrow> nat \<Rightarrow> bytes \<Rightarrow> bytes" where
  "read_chunks data pos h =
     (let chunk = take 8192 (drop pos data)
      in if chunk = [] then h else read_chunks data (pos + length chunk) (h @ chunk))"
  by pat_completeness auto
termination
  by (relation "measure (\<lambda>(data, pos, h). length data - pos)") (auto simp: Let_def)

declare read_chunks.simps [simp del]

definition sha256_file :: "(bytes \<Rightarrow> string) \<Rightarrow> bytes \<Rightarrow> string" where
  "sha256_file hexdigest data = hexdigest (read_chunks data 0 [])"

datatype entry = Entry (ename: string) (is_file: bool) (content: bytes)

type_synonym package_files = "(string \<times> (string \<times> string) list) list"

fun append_file :: "package_files \<Rightarrow> string \<Rightarrow> string \<times> string \<Rightarrow> package_files" where
  "append_file [] k v = [(k, [v])]"
| "append_file ((k', vs) # rest) k v =
     (if k' = k then (k', vs @ [v]) # rest else (k', vs) # append_file rest k v)"

fun collect :: "(bytes \<Rightarrow> string) \<Rightarrow> entry list \<Rightarrow> package_files \<Rightarrow> package_files" where
  "collect hexdigest [] package_files = package_files"
| "collect hexdigest (f # fs) package_files =
     (if \<not> is_file f then collect hexdigest fs package_files
      else (case extract_package_name (ename f) of
          Some pkg_name \<Rightarrow>
            if pkg_name \<noteq> [] then
              (let sha = sha256_file hexdigest (content f)
               in collect hexdigest fs (append_file package_files pkg_name (ename f, sha)))
            else collect hexdigest fs package_files
        | None \<Rightarrow> collect hexdigest fs package_files))"

datatype error = FileNotFoundError | FileExistsError | NotADirectoryError | IsADirectoryError

datatype node = Dir | File string

type_synonym path = "string list"
type_synonym tree = "path \<Rightarrow> node option"

fun mkdir_from :: "tree \<Rightarrow> path \<Rightarrow> path \<Rightarrow> error option \<times> tree" where
  "mkdir_from t p [] =
     (case t p of
        Some (File _) \<Rightarrow> (Some FileExistsError, t)
      | Some Dir \<Rightarrow> (None, t)
      | None \<Rightarrow> (None, t(p \<mapsto> Dir)))"
| "mkdir_from t p (c # cs) =
     (case t p of
        Some (File _) \<Rightarrow> (Some NotADirectoryError, t)
      | Some Dir \<Rightarrow> mkdir_from t (p @ [c]) cs
      | None \<Rightarrow> mkdir_from (t(p \<mapsto> Dir)) (p @ [c]) cs)"

definition mkdir_p :: "tree \<Rightarrow> path \<Rightarrow> error option \<times> tree" where
  "mkdir_p t p = mkdir_from t [] p"

definition write_text :: "tree \<Rightarrow> path \<Rightarrow> string \<Rightarrow> error option \<times> tree" where
  "write_text t p s =
     (case t p of
        Some Dir \<Rightarrow> (Some IsADirectoryError, t)
      | _ \<Rightarrow> (case t (butlast p) of
            Some Dir \<Rightarrow> (None, t(p \<mapsto> File s))
          | Some (File _) \<Rightarrow> (Some NotADirectoryError, t)
          | None \<Rightarrow> (Some FileNotFoundError, t)))"

definition root_link :: "string \<Rightarrow> string" where
  "root_link pkg_name = ''    <a href=\"'' @ pkg_name @ ''/\">'' @ pkg_name @ ''</a>''"

definition root_html :: "string list \<Rightarrow> string" where
  "root_html root_links =
     ''<!DOCTYPE html>'' @ [CHR 0x0A] @ ''<html><head><title>Simple Index</title>''
     @ ''<meta name=\"api-version\" value=\"2\"/></head>'' @ [CHR 0x0A]
     @ ''<body>'' @ [CHR 0x0A] @ join [CHR 0x0A] root_links @ [CHR 0x0A] @ ''</body></html>''"

definition file_link :: "string \<times> string \<Rightarrow> string" where
  "file_link fl = (case fl of (filename, sha) \<Rightarrow>
     (let href = ''../../packages/'' @ filename @ ''#sha256='' @ sha
      in ''    <a href=\"'' @ href @ ''\">'' @ filename @ ''</a>''))"

definition pkg_html :: "string \<Rightarrow> string list \<Rightarrow> string" where
  "pkg_html pkg_name file_links =
     ''<!DOCTYPE html>'' @ [CHR 0x0A] @ ''<html><head><title>'' @ pkg_name @ ''</title>''
     @ ''<meta name=\"api-version\" value=\"2\"/></head>'' @ [CHR 0x0A]
     @ ''<body>'' @ [CHR 0x0A] @ join [CHR 0x0A] file_links @ [CHR 0x0A] @ ''</body></html>''"

fun write_packages :: "(string \<times> (string \<times> string) list) list \<Rightarrow> tree \<Rightarrow> error option \<times> tree" where
  "write_packages [] t = (None, t)"
| "write_packages ((pkg_name, files) # rest) t =
     (case mkdir_p t [''simple'', pkg_name] of
        (Some e, t1) \<Rightarrow> (Some e, t1)
      | (None, t1) \<Rightarrow>
          (case write_text t1 [''simple'', pkg_name, ''index.html'']
                  (pkg_html pkg_name (map file_link files)) of
             (Some e, t2) \<Rightarrow> (Some e, t2)
           | (None, t2) \<Rightarrow> write_packages rest t2))"

definition generate_index ::
  "(bytes \<Rightarrow> string) \<Rightarrow> entry list option \<Rightarrow> tree \<Rightarrow> (error + string) \<times> tree" where
  "generate_index hexdigest packages_dir t =
     (case packages_dir of
        None \<Rightarrow> (Inl FileNotFoundError, t)
      | Some listing \<Rightarrow>
          (let package_files = collect hexdigest (sort_key ename listing) []
           in case mkdir_p t [''simple''] of
                (Some e, t1) \<Rightarrow> (Inl e, t1)
              | (None, t1) \<Rightarrow>
                  (let root_links = map root_link (sort (map fst package_files))
                   in case write_text t1 [''simple'', ''index.html''] (root_html root_links) of
                        (Some e, t2) \<Rightarrow> (Inl e, t2)
                      | (None, t2) \<Rightarrow>
                          (case write_packages (sort_key fst package_files) t2 of
                             (Some e, t3) \<Rightarrow> (Inl e, t3)
                           | (None, t3) \<Rightarrow>
                               (let total_files = sum_list (map (\<lambda>(k, v). length v) package_files)
                                in (Inr (''Generated index: '' @ str_nat (length package_files)
                                      @ '' packages, '' @ str_nat total_files @ '' files''), t3))))))"

section \<open>verify_mirror.py\<close>

definition normalize_vm :: "string \<Rightarrow> string" where
  "normalize_vm name = lower (sub_seps name)"

datatype outcome = Outcome (printed: "string list") (exit_status: nat)

definition found_in :: "string list \<Rightarrow> string \<Rightarrow> string \<Rightarrow> string \<Rightarrow> bool" where
  "found_in available pkg_name pkg_underscore pkg_dot =
     list_ex (\<lambda>f. startswith f (pkg_name @ ''-'') \<or> startswith f (pkg_underscore @ ''-'')
                 \<or> startswith f (pkg_dot @ ''-'')) available"

fun check_reqs :: "string list \<Rightarrow> string list \<Rightarrow> string list \<Rightarrow> nat \<Rightarrow> string list \<times> nat" where
  "check_reqs available [] missing checked = (missing, checked)"
| "check_reqs available (line # reqs) missing checked =
     (let req = strip line
      in if req = [] \<or> startswith req ''#'' \<or> startswith req ''-''
         then check_reqs available reqs missing checked
         else (case match_token req of
             None \<Rightarrow> check_reqs available reqs missing checked
           | Some tok \<Rightarrow>
               (let raw_name = hd (split_chr CHR ''['' tok);
                    pkg_name = normalize_vm raw_name;
                    pkg_underscore = replace_chr CHR ''-'' CHR ''_'' pkg_name;
                    pkg_dot = replace_chr CHR ''-'' CHR ''.'' pkg_name;
                    found = found_in available pkg_name pkg_underscore pkg_dot
                in if \<not> found then check_reqs available reqs (missing @ [req]) (checked + 1)
                   else check_reqs available reqs missing (checked + 1))))"

definition verify :: "string option \<Rightarrow> entry list option \<Rightarrow> error + outcome" where
  "verify requirements_file packages_dir =
     (case requirements_file of
        None \<Rightarrow> Inl FileNotFoundError
      | Some text \<Rightarrow>
          (let reqs = split_chr (CHR 0x0A) (strip text)
           in case packages_dir of
                None \<Rightarrow> Inl FileNotFoundError
              | Some listing \<Rightarrow>
                  (let available = map (\<lambda>f. lower (ename f)) (filter is_file listing);
                       (missing, checked) = check_reqs available reqs [] 0
                   in if missing \<noteq> []
                      then Inr (Outcome
                             ((''MISSING '' @ str_nat (length missing) @ ''/'' @ str_nat checked
                                 @ '' packages:'') # map (\<lambda>m. ''  - '' @ m) missing) 1)
                      else Inr (Outcome [''All '' @ str_nat checked @ '' packages present in mirror.''] 0))))"


section \<open>Notions used to state the properties\<close>



definition name_before_version :: "string \<Rightarrow> string \<Rightarrow> bool" where
  "name_before_version filename p =
     (p \<noteq> [] \<and> prefix p filename \<and> version_follows (drop (length p) filename)
      \<and> CHR 0x0A \<notin> set p
      \<and> list_all (\<lambda>i. \<not> version_follows (drop i filename)) [1..<length p])"

fun spec_sdist_name :: "string \<Rightarrow> string option" where
  "spec_sdist_name [] = None"
| "spec_sdist_name (c # cs) =
     (if version_follows (c # cs) then Some [] else map_option ((#) c) (spec_sdist_name cs))"

definition ci_startswith :: "string \<Rightarrow> string \<Rightarrow> bool" where
  "ci_startswith f p = (lower (take (length p) f) = lower p)"

definition satisfied :: "string list \<Rightarrow> string \<Rightarrow> bool" where
  "satisfied filenames n =
     list_ex (\<lambda>f. ci_startswith f (n @ ''-'')
                 \<or> ci_startswith f (replace_chr CHR ''-'' CHR ''_'' n @ ''-'')
                 \<or> ci_startswith f (replace_chr CHR ''-'' CHR ''.'' n @ ''-'')) filenames"

definition req_name :: "string \<Rightarrow> string option" where
  "req_name line =
     (let req = strip line
      in if req = [] \<or> startswith req ''#'' \<or> startswith req ''-'' then None
         else map_option (\<lambda>tok. normalize_vm (hd (split_chr CHR ''['' tok))) (match_token req))"

definition unsatisfied :: "string list \<Rightarrow> string \<Rightarrow> bool" where
  "unsatisfied filenames line =
     (case req_name line of None \<Rightarrow> False | Some n \<Rightarrow> \<not> satisfied filenames n)"

definition file_names :: "entry list \<Rightarrow> string list" where
  "file_names listing = map ename (filter is_file listing)"

fun dec_value :: "string \<Rightarrow> nat" where
  "dec_value [] = 0"
| "dec_value (c # cs) = (ord c - 48) * 10 ^ length cs + dec_value cs"

definition pkg_of :: "entry \<Rightarrow> string option" where
  "pkg_of f =
     (if \<not> is_file f then None
      else (case extract_package_name (ename f) of
          Some pkg_name \<Rightarrow> if pkg_name \<noteq> [] then Some pkg_name else None
        | None \<Rightarrow> None))"


definition page_path :: "string \<Rightarrow> path" where
  "page_path pkg_name = [''simple'', pkg_name, ''index.html'']"

definition root_page :: path where
  "root_page = [''simple'', ''index.html'']"

definition is_written_page :: "entry list option \<Rightarrow> path \<Rightarrow> bool" where
  "is_written_page packages_dir q =
     (case packages_dir of
        None \<Rightarrow> False
      | Some listing \<Rightarrow>
          q = root_page
          \<or> list_ex (\<lambda>f. case pkg_of f of None \<Rightarrow> False | Some k \<Rightarrow> q = page_path k) listing)"

definition package_groups :: "(bytes \<Rightarrow> string) \<Rightarrow> entry list \<Rightarrow> package_files" where
  "package_groups hexdigest listing = collect hexdigest (sort_key ename listing) []"

definition summary :: "package_files \<Rightarrow> string" where
  "summary pf = ''Generated index: '' @ str_nat (length pf) @ '' packages, ''
     @ str_nat (sum_list (map (\<lambda>(k, v). length v) pf)) @ '' files''"

section \<open>Characters\<close>

lemma chr_eq_ord: "(c = d) = (ord c = ord d)"
  by (simp add: ord_def)

lemma is_sep_ord: "is_sep c = (ord c = 45 \<or> ord c = 95 \<or> ord c = 46)"
proof -
  have "ord CHR ''-'' = 45" "ord CHR ''_'' = 95" "ord CHR ''.'' = 46"
    by (simp_all add: ord_def)
  then show ?thesis
    unfolding is_sep_def chr_eq_ord [of c] by simp
qed

lemma ord_char_of: "n < 256 \<Longrightarrow> ord (char_of n) = n"
  by (simp add: ord_def)

lemma ord_lower_chr: "ord (lower_chr c) = (if (65 \<le> ord c \<and> ord c \<le> 90) \<or> (192 \<le> ord c \<and> ord c \<le> 222 \<and> ord c \<noteq> 215)
      then ord c + 32 else ord c)"
  by (simp add: lower_chr_def ord_char_of)



lemma lower_chr_idem: "lower_chr (lower_chr c) = lower_chr c"
proof -
  have "ord (lower_chr (lower_chr c)) = ord (lower_chr c)" by (simp add: ord_lower_chr)
  then show ?thesis by (simp add: ord_def)
qed


lemma lower_chr_sep: "is_sep c \<Longrightarrow> lower_chr c = c"
  by (auto simp: is_sep_ord lower_chr_def)

lemma lower_chr_dash: "lower_chr CHR ''-'' = CHR ''-''"
  by (rule lower_chr_sep) (simp add: is_sep_def)









lemma lower_idem: "lower (lower s) = lower s"
  by (simp add: lower_def lower_chr_idem)





section \<open>NameNormalizer\<close>



section \<open>ArtifactClassifier\<close>

lemma split_chr_nonempty: "split_chr sep s \<noteq> []"
  by (induction s) (auto split: list.splits)

lemma hd_split_chr: "hd (split_chr sep s) = takeWhile (\<lambda>c. c \<noteq> sep) s"
  by (induction s) (auto simp: split_chr_nonempty split: list.splits)

lemma whl_not_sdist:
  assumes "endswith f ''.whl''"
  shows "\<not> endswith f ''.tar.gz''" and "\<not> endswith f ''.zip''"
proof -
  from assms have "last f = CHR ''l''"
    by (auto simp: endswith_def suffix_def)
  then show "\<not> endswith f ''.tar.gz''" and "\<not> endswith f ''.zip''"
    by (auto simp: endswith_def suffix_def)
qed

lemma name_before_version_alt:
  "name_before_version f p =
     (p \<noteq> [] \<and> prefix p f \<and> version_follows (drop (length p) f) \<and> CHR 0x0A \<notin> set p
      \<and> (\<forall>i. 0 < i \<and> i < length p \<longrightarrow> \<not> version_follows (drop i f)))"
  unfolding name_before_version_def list_all_iff by auto

lemma no_version_inside_Cons:
  "(\<forall>i. 0 < i \<and> i < Suc (length q) \<longrightarrow> \<not> version_follows (drop i (c # cs))) =
     ((q \<noteq> [] \<longrightarrow> \<not> version_follows cs)
      \<and> (\<forall>i. 0 < i \<and> i < length q \<longrightarrow> \<not> version_follows (drop i cs)))"
  (is "?L = ?R")
proof
  assume l: ?L
  have "\<not> version_follows cs" if "q \<noteq> []"
    using l [rule_format, of 1] that by simp
  moreover have "\<not> version_follows (drop i cs)" if "0 < i" "i < length q" for i
    using l [rule_format, of "Suc i"] that by simp
  ultimately show ?R by blast
next
  assume r: ?R
  show ?L
  proof (intro allI impI)
    fix i assume i: "0 < i \<and> i < Suc (length q)"
    then obtain j where j: "i = Suc j" by (cases i) auto
    show "\<not> version_follows (drop i (c # cs))"
    proof (cases j)
      case 0
      with i j have "q \<noteq> []" by auto
      with r 0 j show ?thesis by simp
    next
      case (Suc k)
      with i j r show ?thesis by simp
    qed
  qed
qed

lemma name_before_version_Cons:
  "name_before_version (c # cs) p =
     (c \<noteq> CHR 0x0A \<and>
      (if version_follows cs then p = [c]
       else (\<exists>q. p = c # q \<and> name_before_version cs q)))"
proof (cases p)
  case Nil
  then show ?thesis by (auto simp: name_before_version_def)
next
  case (Cons d q)
  show ?thesis
    unfolding Cons name_before_version_alt length_Cons no_version_inside_Cons
    by (cases "q = []") auto
qed

lemma match_sdist_iff: "match_sdist f = Some p \<longleftrightarrow> name_before_version f p"
proof (induction f arbitrary: p)
  case Nil
  show ?case by (simp add: name_before_version_def)
next
  case (Cons c cs)
  show ?case
    unfolding name_before_version_Cons
    by (auto simp: Cons.IH)
qed

lemma match_sdist_None: "match_sdist f = None \<longleftrightarrow> (\<forall>p. \<not> name_before_version f p)"
  by (metis match_sdist_iff not_Some_eq)


lemma name_before_version_unique:
  "name_before_version f p \<Longrightarrow> name_before_version f q \<Longrightarrow> p = q"
  by (metis match_sdist_iff option.inject)

lemma extract_whl:
  "endswith f ''.whl'' \<Longrightarrow>
   extract_package_name f = Some (normalize (takeWhile (\<lambda>c. c \<noteq> CHR ''-'') f))"
  by (simp add: extract_package_name_def hd_split_chr)

lemma extract_sdist:
  assumes "endswith f ''.tar.gz'' \<or> endswith f ''.zip''"
  shows "extract_package_name f = map_option normalize (match_sdist f)"
proof -
  from assms have "\<not> endswith f ''.whl''"
    using whl_not_sdist by blast
  with assms show ?thesis
    by (auto simp: extract_package_name_def)
qed

lemma extract_other:
  "\<not> endswith f ''.whl'' \<Longrightarrow> \<not> endswith f ''.tar.gz'' \<Longrightarrow> \<not> endswith f ''.zip'' \<Longrightarrow>
   extract_package_name f = None"
  by (simp add: extract_package_name_def)

lemma extract_wheel_name:
  assumes "CHR ''-'' \<notin> set name"
  shows "extract_package_name (name @ ''-'' @ version @ ''-py3-none-any.whl'')
           = Some (normalize name)"
proof -
  have e: "endswith (name @ ''-'' @ version @ ''-py3-none-any.whl'') ''.whl''"
    unfolding endswith_def suffix_def
    by (rule exI [of _ "name @ ''-'' @ version @ ''-py3-none-any''"]) simp
  have "takeWhile (\<lambda>c. c \<noteq> CHR ''-'') (name @ ''-'' @ version @ ''-py3-none-any.whl'') = name"
    using assms by (subst takeWhile_append2) auto
  with extract_whl [OF e] show ?thesis by simp
qed

text \<open>
  Claim C3, as amended. A filename ending in \<open>.whl\<close> classifies as the normalized first
  \<open>-\<close>-delimited segment, so \<open>{name}-{version}-py3-none-any.whl\<close> with a
  hyphen-free name gives the normalized name. A filename ending in \<open>.tar.gz\<close> or
  \<open>.zip\<close> classifies as the normalized leading substring \<open>p\<close> that ends just before
  the first occurrence, after the first character, of \<open>-\<close> immediately followed by a
  digit, provided no line feed stands before that occurrence
  (\<^term>\<open>name_before_version\<close>; there is at most one such \<open>p\<close>), and as none
  exactly when there is no such \<open>p\<close>. \<open>my-package-1.2.3.tar.gz\<close> classifies as
  \<open>my-package\<close>, and any other suffix gives none.
\<close>

theorem extract_package_name_cases:
  "(endswith f ''.whl'' \<longrightarrow>
      extract_package_name f = Some (normalize (takeWhile (\<lambda>c. c \<noteq> CHR ''-'') f)))
   \<and> (CHR ''-'' \<notin> set name \<longrightarrow>
      extract_package_name (name @ ''-'' @ version @ ''-py3-none-any.whl'') = Some (normalize name))
   \<and> (endswith f ''.tar.gz'' \<or> endswith f ''.zip'' \<longrightarrow>
        (\<forall>p. name_before_version f p \<longrightarrow>
           extract_package_name f = Some (normalize p) \<and> (\<forall>q. name_before_version f q \<longrightarrow> q = p))
      \<and> ((\<forall>p. \<not> name_before_version f p) \<longrightarrow> extract_package_name f = None)
      \<and> (extract_package_name f = None \<longrightarrow> (\<forall>p. \<not> name_before_version f p)))
   \<and> extract_package_name ''my-package-1.2.3.tar.gz'' = Some ''my-package''
   \<and> (\<not> endswith f ''.whl'' \<and> \<not> endswith f ''.tar.gz'' \<and> \<not> endswith f ''.zip'' \<longrightarrow>
        extract_package_name f = None)"
proof -
  have ex: "extract_package_name ''my-package-1.2.3.tar.gz'' = Some ''my-package''"
    by code_simp
  have sd: "extract_package_name f = Some (normalize p) \<and> (\<forall>q. name_before_version f q \<longrightarrow> q = p)"
    if "endswith f ''.tar.gz'' \<or> endswith f ''.zip''" "name_before_version f p" for p
    using that extract_sdist [of f] name_before_version_unique [of f _ p]
    by (simp add: match_sdist_iff [symmetric])
  have sn: "(extract_package_name f = None) = (\<forall>p. \<not> name_before_version f p)"
    if "endswith f ''.tar.gz'' \<or> endswith f ''.zip''"
    using that extract_sdist [of f] by (simp add: match_sdist_None)
  show ?thesis
    using ex sd sn extract_whl [of f] extract_wheel_name [of name version] extract_other [of f]
    by blast
qed

theorem extract_package_name_cases_witness:
  "endswith ''Foo_Bar-1.0-py3-none-any.whl'' ''.whl''
   \<and> extract_package_name ''Foo_Bar-1.0-py3-none-any.whl'' = Some ''foo-bar''
   \<and> CHR ''-'' \<notin> set ''Foo_Bar''
   \<and> extract_package_name (''Foo_Bar'' @ ''-'' @ ''1.0'' @ ''-py3-none-any.whl'') = Some ''foo-bar''
   \<and> endswith ''my-package-1.2.3.tar.gz'' ''.tar.gz''
   \<and> name_before_version ''my-package-1.2.3.tar.gz'' ''my-package''
   \<and> extract_package_name ''my-package-1.2.3.tar.gz'' = Some ''my-package''
   \<and> endswith ''nodigits.zip'' ''.zip''
   \<and> extract_package_name ''nodigits.zip'' = None
   \<and> \<not> name_before_version ''nodigits.zip'' ''nodigits''
   \<and> \<not> endswith ''notes.txt'' ''.whl'' \<and> \<not> endswith ''notes.txt'' ''.tar.gz''
   \<and> \<not> endswith ''notes.txt'' ''.zip''
   \<and> extract_package_name ''notes.txt'' = None"
proof -
  have h1: "endswith ''Foo_Bar-1.0-py3-none-any.whl'' ''.whl''" by code_simp
  have h2: "CHR ''-'' \<notin> set ''Foo_Bar''" by code_simp
  have h3: "endswith ''my-package-1.2.3.tar.gz'' ''.tar.gz''" by code_simp
  have h4: "name_before_version ''my-package-1.2.3.tar.gz'' ''my-package''" by code_simp
  have h5: "endswith ''nodigits.zip'' ''.zip''" by code_simp
  have h6: "extract_package_name ''nodigits.zip'' = None" by code_simp
  have h7: "\<not> endswith ''notes.txt'' ''.whl'' \<and> \<not> endswith ''notes.txt'' ''.tar.gz''
     \<and> \<not> endswith ''notes.txt'' ''.zip''" by code_simp
  have v1: "normalize (takeWhile (\<lambda>c. c \<noteq> CHR ''-'') ''Foo_Bar-1.0-py3-none-any.whl'') = ''foo-bar''"
    by code_simp
  have v2: "normalize ''Foo_Bar'' = ''foo-bar''" "normalize ''my-package'' = ''my-package''"
    by code_simp+
  note t = extract_package_name_cases
  from t [of "''Foo_Bar-1.0-py3-none-any.whl''" "''Foo_Bar''" "''1.0''"] h1 h2 v1 v2
  have c1: "extract_package_name ''Foo_Bar-1.0-py3-none-any.whl'' = Some ''foo-bar''"
    and c2: "extract_package_name (''Foo_Bar'' @ ''-'' @ ''1.0'' @ ''-py3-none-any.whl'') = Some ''foo-bar''"
    by simp_all
  from t [of "''my-package-1.2.3.tar.gz''" "[]" "[]"] h3 h4 v2
  have c3: "extract_package_name ''my-package-1.2.3.tar.gz'' = Some ''my-package''"
    by simp
  from t [of "''nodigits.zip''" "[]" "[]"] h5 h6
  have c4: "\<not> name_before_version ''nodigits.zip'' ''nodigits''"
    by blast
  from t [of "''notes.txt''" "[]" "[]"] h7
  have c5: "extract_package_name ''notes.txt'' = None"
    by blast
  from h1 h2 h3 h4 h5 h6 h7 c1 c2 c3 c4 c5 show ?thesis by blast
qed

text \<open>
  Claim C3 as stated fails: in \<open>-1.tar.gz\<close> the first \<open>-\<close> followed by a digit
  stands at the very start, so the leading substring before it is empty and the claim gives the
  normalized empty name (\<^term>\<open>spec_sdist_name\<close>); the pattern of the code wants at
  least one character before the version and gives none.
\<close>

theorem sdist_leading_dash_counterexample:
  "endswith ''-1.tar.gz'' ''.tar.gz''
   \<and> spec_sdist_name ''-1.tar.gz'' = Some []
   \<and> extract_package_name ''-1.tar.gz'' = None
   \<and> extract_package_name ''-1.tar.gz'' \<noteq> map_option normalize (spec_sdist_name ''-1.tar.gz'')"
  by code_simp

section \<open>MirrorVerifier\<close>

lemma normalize_vm_eq: "normalize_vm = normalize"
  by (rule ext) (simp add: normalize_vm_def normalize_def)

lemma lower_normalize: "lower (normalize x) = normalize x"
  by (simp add: normalize_def lower_idem)

lemma lower_replace_sep:
  assumes "lower s = s" and "is_sep b"
  shows "lower (replace_chr a b s) = replace_chr a b s"
proof -
  from assms(1) have "\<forall>c \<in> set s. lower_chr c = c"
    by (simp add: lower_def map_idI map_eq_conv [where g = id, simplified] list.map_id)
  with assms(2) show ?thesis
    by (simp add: lower_def replace_chr_def lower_chr_sep)
qed

lemma startswith_take: "startswith s p = (take (length p) s = p)"
  unfolding startswith_def by (metis append_eq_conv_conj prefix_def take_is_prefix)

lemma ci_startswith_lower:
  "lower p = p \<Longrightarrow> startswith (lower f) p = ci_startswith f p"
  by (simp add: startswith_take ci_startswith_def lower_def take_map)

lemma lower_dash: "lower s = s \<Longrightarrow> lower (s @ ''-'') = s @ ''-''"
  using lower_chr_dash by (simp add: lower_def)

lemma found_in_satisfied:
  "found_in (map lower fs) (normalize x)
      (replace_chr CHR ''-'' CHR ''_'' (normalize x)) (replace_chr CHR ''-'' CHR ''.'' (normalize x))
   = satisfied fs (normalize x)"
proof -
  have u: "is_sep CHR ''_''" and d: "is_sep CHR ''.''" by (simp_all add: is_sep_def)
  note l = lower_dash [OF lower_normalize [of x]]
    lower_dash [OF lower_replace_sep [OF lower_normalize [of x] u]]
    lower_dash [OF lower_replace_sep [OF lower_normalize [of x] d]]
  show ?thesis
    unfolding found_in_def satisfied_def list_ex_iff
    by (simp add: l [THEN ci_startswith_lower])
qed

lemma req_name_normal: "req_name line = Some n \<Longrightarrow> \<exists>x. n = normalize x"
  by (auto simp: req_name_def Let_def normalize_vm_eq split: if_splits)

lemma check_reqs_eq:
  "check_reqs (map lower fs) reqs missing checked =
     (missing @ map strip (filter (unsatisfied fs) reqs),
      checked + length (filter (\<lambda>l. req_name l \<noteq> None) reqs))"
proof (induction reqs arbitrary: missing checked)
  case Nil
  show ?case by simp
next
  case (Cons line reqs)
  show ?case
  proof (cases "req_name line")
    case None
    then show ?thesis
      by (auto simp: Cons.IH unsatisfied_def req_name_def Let_def split: if_splits option.splits)
  next
    case (Some n)
    then obtain tok where tok: "match_token (strip line) = Some tok"
      and n: "n = normalize (hd (split_chr CHR ''['' tok))"
      and ns: "\<not> (strip line = [] \<or> startswith (strip line) ''#'' \<or> startswith (strip line) ''-'')"
      by (auto simp: req_name_def Let_def normalize_vm_eq split: if_splits)
    from Some n have un: "unsatisfied fs line = (\<not> satisfied fs (normalize (hd (split_chr CHR ''['' tok))))"
      by (simp add: unsatisfied_def)
    show ?thesis
      using ns tok Some
      by (simp add: Cons.IH Let_def normalize_vm_eq found_in_satisfied un)
  qed
qed








lemma verify_eq:
  "verify (Some text) (Some listing) =
     (let reqs = split_chr (CHR 0x0A) (strip text);
          missing = map strip (filter (unsatisfied (file_names listing)) reqs);
          checked = length (filter (\<lambda>l. req_name l \<noteq> None) reqs)
      in if missing = []
         then Inr (Outcome [''All '' @ str_nat checked @ '' packages present in mirror.''] 0)
         else Inr (Outcome ((''MISSING '' @ str_nat (length missing) @ ''/'' @ str_nat checked
                               @ '' packages:'') # map (\<lambda>m. ''  - '' @ m) missing) 1))"
proof -
  have a: "map (\<lambda>f. lower (ename f)) (filter is_file listing) = map lower (file_names listing)"
    by (simp add: file_names_def)
  have b: "check_reqs (map (\<lambda>f. lower (ename f)) (filter is_file listing)) reqs [] 0
      = (map strip (filter (unsatisfied (file_names listing)) reqs),
         length (filter (\<lambda>l. req_name l \<noteq> None) reqs))" for reqs
    unfolding a by (simp add: check_reqs_eq)
  show ?thesis
    unfolding verify_def by (simp add: b Let_def)
qed






lemma join_split_chr: "join [sep] (split_chr sep s) = s"
proof (induction s)
  case Nil
  show ?case by simp
next
  case (Cons c cs)
  obtain w ws where sp: "split_chr sep cs = w # ws"
    by (cases "split_chr sep cs") (simp_all add: split_chr_nonempty)
  with Cons show ?case
    by (cases ws) auto
qed

lemma split_chr_parts: "list_all (\<lambda>p. sep \<notin> set p) (split_chr sep s)"
  by (induction s) (auto split: list.splits)

lemma ord_digit_chr: "d < 10 \<Longrightarrow> ord (digit_chr d) = 48 + d"
  by (simp add: digit_chr_def ord_char_of)

lemma str_nat_length: "0 < length (str_nat k)"
  by (subst str_nat.simps) simp

lemma dec_value_snoc: "dec_value (ds @ [c]) = dec_value ds * 10 + (ord c - 48)"
  by (induction ds) (simp_all add: algebra_simps)

lemma str_nat_value: "dec_value (str_nat k) = k"
proof (induction k rule: str_nat.induct)
  case (1 n)
  show ?case
  proof (cases "n < 10")
    case True
    then show ?thesis by (subst str_nat.simps) (simp add: ord_digit_chr)
  next
    case False
    with 1 have "dec_value (str_nat (n div 10)) = n div 10" by simp
    with False show ?thesis
      by (subst str_nat.simps) (simp add: dec_value_snoc ord_digit_chr)
  qed
qed

lemma str_nat_digits: "list_all is_digit (str_nat k)"
proof (induction k rule: str_nat.induct)
  case (1 n)
  have d: "is_digit (digit_chr m)" if "m < 10" for m
    using that by (simp add: is_digit_def ord_digit_chr)
  show ?case
  proof (cases "n < 10")
    case True
    then show ?thesis by (subst str_nat.simps) (simp add: d)
  next
    case False
    with 1 have "list_all is_digit (str_nat (n div 10))" by simp
    with False show ?thesis
      by (subst str_nat.simps) (simp add: d)
  qed
qed

lemma str_nat_no_leading_zero: "0 < k \<Longrightarrow> hd (str_nat k) \<noteq> CHR ''0''"
proof (induction k rule: str_nat.induct)
  case (1 n)
  show ?case
  proof (cases "n < 10")
    case True
    with "1.prems" have "ord (digit_chr n) \<noteq> ord CHR ''0''"
      by (simp add: ord_digit_chr) (simp add: ord_def)
    then have "digit_chr n \<noteq> CHR ''0''" by auto
    with True show ?thesis by (subst str_nat.simps) simp
  next
    case False
    then have "0 < n div 10" by simp
    with 1 False have "hd (str_nat (n div 10)) \<noteq> CHR ''0''" by simp
    moreover have "str_nat (n div 10) \<noteq> []" using str_nat_length [of "n div 10"] by simp
    ultimately show ?thesis using False
      by (subst str_nat.simps) simp
  qed
qed



text \<open>
  Claim C6, as amended. With the requirements file and the artifact directory present, the
  verifier never raises: it prints \<open>All <checked> packages present in mirror.\<close> and
  returns normally (status 0) exactly when no checked line is unsatisfied; otherwise it prints
  \<open>MISSING <missing>/<checked> packages:\<close> followed by one line for every unsatisfied
  requirement line, with its leading and trailing white space removed and otherwise unchanged,
  in input order, and exits with status 1. The lines are the pieces of the stripped text
  between line feeds (\<^term>\<open>split_chr\<close>), the counts are printed in decimal without
  leading zero (\<^term>\<open>str_nat\<close>), and four runs are given in full: the requirement
  \<open>numpy==1.0\<close> against a directory with only a scipy wheel, a file with a comment, an
  option line, a blank line, an extras marker, a directory entry that is no file and a line with
  no name, a file whose requirements are all present, and a file of twelve requirements.
\<close>

theorem verify_outcome:
  "verify (Some text) (Some listing) =
     (let reqs = split_chr (CHR 0x0A) (strip text);
          missing = map strip (filter (unsatisfied (file_names listing)) reqs);
          checked = length (filter (\<lambda>l. req_name l \<noteq> None) reqs)
      in if missing = []
         then Inr (Outcome [''All '' @ str_nat checked @ '' packages present in mirror.''] 0)
         else Inr (Outcome ((''MISSING '' @ str_nat (length missing) @ ''/'' @ str_nat checked
                               @ '' packages:'') # map (\<lambda>m. ''  - '' @ m) missing) 1))
   \<and> (\<exists>out. verify (Some text) (Some listing) = Inr out
          \<and> (exit_status out = 0) =
              (filter (unsatisfied (file_names listing)) (split_chr (CHR 0x0A) (strip text)) = []))
   \<and> join [sep] (split_chr sep s) = s \<and> list_all (\<lambda>p. sep \<notin> set p) (split_chr sep s)
   \<and> dec_value (str_nat k) = k \<and> list_all is_digit (str_nat k)
   \<and> (0 < k \<longrightarrow> hd (str_nat k) \<noteq> CHR ''0'')
   \<and> verify (Some ''numpy==1.0'') (Some [Entry ''scipy-1.0-py3-none-any.whl'' True []])
       = Inr (Outcome [''MISSING 1/1 packages:'', ''  - numpy==1.0''] 1)
   \<and> verify (Some (''# pinned'' @ [CHR 0x0A] @ ''-r base.txt'' @ [CHR 0x0A, CHR 0x0A] @ ''numpy==1.0''
                 @ [CHR 0x0A] @ ''Requests[security]==2.31.0'' @ [CHR 0x0A] @ ''pandas''
                 @ [CHR 0x0A] @ ''scipy>=1.0'' @ [CHR 0x0A] @ ''==broken'' @ [CHR 0x0A]))
        (Some [Entry ''requests-2.31.0.tar.gz'' True [], Entry ''scipy-1.0-py3-none-any.whl'' True [],
               Entry ''pandas-2.0'' False []])
       = Inr (Outcome [''MISSING 2/4 packages:'', ''  - numpy==1.0'', ''  - pandas''] 1)
   \<and> verify (Some (''scipy>=1.0'' @ [CHR 0x0A] @ ''requests''))
        (Some [Entry ''requests-2.31.0.tar.gz'' True [], Entry ''scipy-1.0-py3-none-any.whl'' True []])
       = Inr (Outcome [''All 2 packages present in mirror.''] 0)
   \<and> verify (Some (''a'' @ [CHR 0x0A] @ ''b'' @ [CHR 0x0A] @ ''c'' @ [CHR 0x0A] @ ''d'' @ [CHR 0x0A]
                 @ ''e'' @ [CHR 0x0A] @ ''f'' @ [CHR 0x0A] @ ''g'' @ [CHR 0x0A] @ ''h'' @ [CHR 0x0A]
                 @ ''i'' @ [CHR 0x0A] @ ''j'' @ [CHR 0x0A] @ ''k'' @ [CHR 0x0A] @ ''l''))
        (Some [Entry ''l-1.0.zip'' True []])
       = Inr (Outcome [''MISSING 11/12 packages:'', ''  - a'', ''  - b'', ''  - c'', ''  - d'',
               ''  - e'', ''  - f'', ''  - g'', ''  - h'', ''  - i'', ''  - j'', ''  - k''] 1)"
proof -
  have i1: "verify (Some ''numpy==1.0'') (Some [Entry ''scipy-1.0-py3-none-any.whl'' True []])
       = Inr (Outcome [''MISSING 1/1 packages:'', ''  - numpy==1.0''] 1)"
    by code_simp
  have i2: "verify (Some (''# pinned'' @ [CHR 0x0A] @ ''-r base.txt'' @ [CHR 0x0A, CHR 0x0A] @ ''numpy==1.0''
                 @ [CHR 0x0A] @ ''Requests[security]==2.31.0'' @ [CHR 0x0A] @ ''pandas''
                 @ [CHR 0x0A] @ ''scipy>=1.0'' @ [CHR 0x0A] @ ''==broken'' @ [CHR 0x0A]))
        (Some [Entry ''requests-2.31.0.tar.gz'' True [], Entry ''scipy-1.0-py3-none-any.whl'' True [],
               Entry ''pandas-2.0'' False []])
       = Inr (Outcome [''MISSING 2/4 packages:'', ''  - numpy==1.0'', ''  - pandas''] 1)"
    by code_simp
  have i3: "verify (Some (''scipy>=1.0'' @ [CHR 0x0A] @ ''requests''))
        (Some [Entry ''requests-2.31.0.tar.gz'' True [], Entry ''scipy-1.0-py3-none-any.whl'' True []])
       = Inr (Outcome [''All 2 packages present in mirror.''] 0)"
    by code_simp
  have i4: "verify (Some (''a'' @ [CHR 0x0A] @ ''b'' @ [CHR 0x0A] @ ''c'' @ [CHR 0x0A] @ ''d'' @ [CHR 0x0A]
                 @ ''e'' @ [CHR 0x0A] @ ''f'' @ [CHR 0x0A] @ ''g'' @ [CHR 0x0A] @ ''h'' @ [CHR 0x0A]
                 @ ''i'' @ [CHR 0x0A] @ ''j'' @ [CHR 0x0A] @ ''k'' @ [CHR 0x0A] @ ''l''))
        (Some [Entry ''l-1.0.zip'' True []])
       = Inr (Outcome [''MISSING 11/12 packages:'', ''  - a'', ''  - b'', ''  - c'', ''  - d'',
               ''  - e'', ''  - f'', ''  - g'', ''  - h'', ''  - i'', ''  - j'', ''  - k''] 1)"
    by code_simp
  have ex: "\<exists>out. verify (Some text) (Some listing) = Inr out
          \<and> (exit_status out = 0) =
              (filter (unsatisfied (file_names listing)) (split_chr (CHR 0x0A) (strip text)) = [])"
    unfolding verify_eq by (simp add: Let_def)
  show ?thesis
    using i1 i2 i3 i4 ex verify_eq [of "text" listing] join_split_chr [of sep s]
      split_chr_parts [of sep s] str_nat_value [of k] str_nat_digits [of k]
      str_nat_no_leading_zero [of k]
    by blast
qed

theorem verify_outcome_witness:
  "(0::nat) < 12 \<and> hd (str_nat 12) \<noteq> CHR ''0'' \<and> dec_value (str_nat 12) = 12
   \<and> verify (Some (''  flask  '' @ [CHR 0x0A] @ ''django[argon2]==5.0''))
        (Some [Entry ''Django-5.0-py3-none-any.whl'' True []])
       = Inr (Outcome [''MISSING 1/2 packages:'', ''  - flask''] 1)"
proof -
  have v: "(let reqs = split_chr (CHR 0x0A) (strip (''  flask  '' @ [CHR 0x0A] @ ''django[argon2]==5.0''));
          missing = map strip (filter (unsatisfied (file_names [Entry ''Django-5.0-py3-none-any.whl'' True []])) reqs);
          checked = length (filter (\<lambda>l. req_name l \<noteq> None) reqs)
      in if missing = []
         then Inr (Outcome [''All '' @ str_nat checked @ '' packages present in mirror.''] 0)
         else Inr (Outcome ((''MISSING '' @ str_nat (length missing) @ ''/'' @ str_nat checked
                               @ '' packages:'') # map (\<lambda>m. ''  - '' @ m) missing) 1))
     = (Inr (Outcome [''MISSING 1/2 packages:'', ''  - flask''] 1) :: error + outcome)"
    by code_simp
  have z: "(0::nat) < 12" by simp
  from verify_outcome [of "''  flask  '' @ [CHR 0x0A] @ ''django[argon2]==5.0''"
      "[Entry ''Django-5.0-py3-none-any.whl'' True []]" "CHR 0x0A" "[]" 12] v z
  show ?thesis by simp
qed

text \<open>
  Claim C6 as stated fails where it says verbatim: the line \<open>  numpy==1.0  \<close>, with
  white space around the requirement, is reported as \<open>  - numpy==1.0\<close>; the loop strips
  every line before it records it.
\<close>

theorem missing_line_not_verbatim_counterexample:
  "''  numpy==1.0  '' \<in> set (split_chr (CHR 0x0A)
       (strip (''scipy==1.0'' @ [CHR 0x0A] @ ''  numpy==1.0  '' @ [CHR 0x0A] @ ''scipy>=1'')))
   \<and> verify (Some (''scipy==1.0'' @ [CHR 0x0A] @ ''  numpy==1.0  '' @ [CHR 0x0A] @ ''scipy>=1''))
        (Some [Entry ''scipy-1.0-py3-none-any.whl'' True []])
       = Inr (Outcome [''MISSING 1/3 packages:'', ''  - numpy==1.0''] 1)
   \<and> ''  - '' @ ''  numpy==1.0  '' \<notin> set [''MISSING 1/3 packages:'', ''  - numpy==1.0'']"
  by code_simp

text \<open>
  Claim C8. When the requirements file is missing the verifier stops with
  \<open>FileNotFoundError\<close> and prints nothing, and so it does when the artifact directory is
  missing; when the artifact directory is missing the index builder stops with
  \<open>FileNotFoundError\<close>, prints nothing and leaves the output tree as it was.
\<close>

theorem missing_input_aborts:
  "verify None packages_dir = Inl FileNotFoundError
   \<and> verify (Some text) None = Inl FileNotFoundError
   \<and> generate_index hexdigest None t = (Inl FileNotFoundError, t)"
  by (simp add: verify_def generate_index_def)

section \<open>IndexBuilder\<close>

lemma read_chunks_eq: "read_chunks data pos h = h @ drop pos data"
proof (induction data pos h rule: read_chunks.induct)
  case (1 data pos h)
  let ?chunk = "take 8192 (drop pos data)"
  show ?case
  proof (cases "?chunk = []")
    case True
    then have "drop pos data = []" by (simp add: take_eq_Nil)
    with True show ?thesis by (subst read_chunks.simps) simp
  next
    case False
    have "?chunk @ drop (pos + length ?chunk) data = ?chunk @ drop 8192 (drop pos data)"
      by (simp add: min_def add.commute)
    also have "\<dots> = drop pos data" by (rule append_take_drop_id)
    finally have "?chunk @ drop (pos + length ?chunk) data = drop pos data" .
    with False "1.IH" [OF refl False] show ?thesis
      by (subst read_chunks.simps) (simp add: Let_def)
  qed
qed

lemma sha256_file_whole: "sha256_file hexdigest data = hexdigest data"
  by (simp add: sha256_file_def read_chunks_eq)

lemma append_file_keys:
  "map fst (append_file pf k v) = (if k \<in> fst ` set pf then map fst pf else map fst pf @ [k])"
proof (induction pf)
  case Nil
  show ?case by simp
next
  case (Cons p pf)
  obtain a vs where p: "p = (a, vs)" by (cases p)
  show ?case
  proof (cases "a = k")
    case True
    with p show ?thesis by simp
  next
    case False
    with p Cons.IH show ?thesis by simp
  qed
qed

lemma append_file_key_set: "fst ` set (append_file pf k v) = insert k (fst ` set pf)"
  using append_file_keys [of pf k v, THEN arg_cong, of set] by auto

lemma append_file_distinct:
  "distinct (map fst pf) \<Longrightarrow> distinct (map fst (append_file pf k v))"
  by (simp add: append_file_keys)


lemma collect_step:
  "collect hexdigest (f # fs) pf =
     (case pkg_of f of
        None \<Rightarrow> collect hexdigest fs pf
      | Some k \<Rightarrow> collect hexdigest fs (append_file pf k (ename f, hexdigest (content f))))"
  by (simp add: pkg_of_def sha256_file_whole split: option.splits)

lemma collect_keys:
  "fst ` set (collect hexdigest fs pf) =
     fst ` set pf \<union> {k. \<exists>f \<in> set fs. pkg_of f = Some k}"
proof (induction fs arbitrary: pf)
  case Nil
  show ?case by simp
next
  case (Cons f fs)
  show ?case
    unfolding collect_step
    by (cases "pkg_of f") (auto simp: Cons.IH append_file_key_set simp del: collect.simps)
qed

lemma collect_distinct:
  "distinct (map fst pf) \<Longrightarrow> distinct (map fst (collect hexdigest fs pf))"
proof (induction fs arbitrary: pf)
  case Nil
  then show ?case by simp
next
  case (Cons f fs)
  then show ?case
    unfolding collect_step
    by (cases "pkg_of f") (simp_all add: append_file_distinct del: collect.simps)
qed


lemma collect_filter:
  "collect hexdigest fs pf = collect hexdigest (filter (\<lambda>f. pkg_of f \<noteq> None) fs) pf"
proof (induction fs arbitrary: pf)
  case Nil
  show ?case by simp
next
  case (Cons f fs)
  show ?case
  proof (cases "pkg_of f")
    case None
    then show ?thesis
      using Cons.IH [of pf] by (simp add: collect_step del: collect.simps)
  next
    case (Some k)
    then show ?thesis
      using Cons.IH [of "append_file pf k (ename f, hexdigest (content f))"]
      by (simp add: collect_step del: collect.simps)
  qed
qed


lemma mkdir_from_mono:
  "mkdir_from t p cs = (r, t') \<Longrightarrow> t q = Some n \<Longrightarrow> t' q = Some n"
proof (induction cs arbitrary: t p)
  case Nil
  then show ?case by (auto split: option.splits node.splits)
next
  case (Cons c cs)
  show ?case
  proof (cases "t p")
    case None
    with Cons.prems have "mkdir_from (t(p \<mapsto> Dir)) (p @ [c]) cs = (r, t')"
      and "(t(p \<mapsto> Dir)) q = Some n"
      by auto
    then show ?thesis by (rule Cons.IH)
  next
    case (Some m)
    with Cons.prems Cons.IH [of t "p @ [c]"] show ?thesis
      by (cases m) auto
  qed
qed

lemma mkdir_p_mono: "mkdir_p t p = (r, t') \<Longrightarrow> t q = Some n \<Longrightarrow> t' q = Some n"
  unfolding mkdir_p_def by (rule mkdir_from_mono)

lemma mkdir_p_one:
  "mkdir_p t [a] = (None, t') \<Longrightarrow> t' [] = Some Dir \<and> t' [a] = Some Dir"
  by (auto simp: mkdir_p_def split: option.splits node.splits)

lemma mkdir_p_two:
  "mkdir_p t [a, b] = (None, t') \<Longrightarrow> t' [a, b] = Some Dir"
  by (auto simp: mkdir_p_def split: option.splits node.splits)

lemma mkdir_p_one_idem:
  "t [] = Some Dir \<Longrightarrow> t [a] = Some Dir \<Longrightarrow> mkdir_p t [a] = (None, t)"
  by (simp add: mkdir_p_def)

lemma mkdir_p_two_idem:
  "t [] = Some Dir \<Longrightarrow> t [a] = Some Dir \<Longrightarrow> t [a, b] = Some Dir \<Longrightarrow>
   mkdir_p t [a, b] = (None, t)"
  by (simp add: mkdir_p_def)

lemma write_text_other:
  "write_text t p s = (r, t') \<Longrightarrow> q \<noteq> p \<Longrightarrow> t' q = t q"
  by (auto simp: write_text_def split: option.splits node.splits)

lemma write_text_dir:
  "write_text t p s = (r, t') \<Longrightarrow> t q = Some Dir \<Longrightarrow> t' q = Some Dir"
  by (auto simp: write_text_def split: option.splits node.splits)

lemma write_text_file:
  "write_text t p s = (r, t') \<Longrightarrow> t q = Some (File c) \<Longrightarrow> \<exists>c'. t' q = Some (File c')"
  by (auto simp: write_text_def split: option.splits node.splits)

lemma write_text_done:
  "write_text t p s = (None, t') \<Longrightarrow> t' p = Some (File s)"
  by (auto simp: write_text_def split: option.splits node.splits)

lemma write_text_idem:
  "t p = Some (File s) \<Longrightarrow> t (butlast p) = Some Dir \<Longrightarrow> write_text t p s = (None, t)"
  by (simp add: write_text_def map_upd_triv)

lemma write_text_keeps:
  "write_text t p s = (r, t') \<Longrightarrow> t q = Some n \<Longrightarrow> n = Dir \<or> q \<noteq> p \<Longrightarrow> t' q = Some n"
  using write_text_other [of t p s r t' q] write_text_dir [of t p s r t' q] by auto

lemma write_packages_keeps:
  "write_packages ps t = (r, t') \<Longrightarrow> t q = Some n \<Longrightarrow>
   n = Dir \<or> (\<forall>k \<in> fst ` set ps. q \<noteq> page_path k) \<Longrightarrow> t' q = Some n"
proof (induction ps arbitrary: t)
  case Nil
  then show ?case by simp
next
  case (Cons p ps)
  obtain k files where p: "p = (k, files)" by (cases p)
  obtain e1 t1 where m: "mkdir_p t [''simple'', k] = (e1, t1)" by (cases "mkdir_p t [''simple'', k]")
  obtain e2 t2 where w: "write_text t1 (page_path k) (pkg_html k (map file_link files)) = (e2, t2)"
    by (cases "write_text t1 (page_path k) (pkg_html k (map file_link files))")
  have q1: "t1 q = Some n" using m Cons.prems(2) by (rule mkdir_p_mono)
  have q2: "t2 q = Some n"
    using w q1 Cons.prems(3) p by (intro write_text_keeps [of t1 _ _ e2 t2 q n]) auto
  show ?case
  proof (cases e1)
    case (Some e)
    with Cons.prems(1) p m q1 show ?thesis by simp
  next
    case None
    note e1 = this
    show ?thesis
    proof (cases e2)
      case (Some e)
      with Cons.prems(1) p m w e1 q2 show ?thesis by (simp add: page_path_def)
    next
      case None
      with Cons.prems(1) p m w e1 have "write_packages ps t2 = (r, t')"
        by (simp add: page_path_def)
      moreover from Cons.prems(3) have "n = Dir \<or> (\<forall>k \<in> fst ` set ps. q \<noteq> page_path k)"
        by auto
      ultimately show ?thesis using q2 Cons.IH by blast
    qed
  qed
qed

lemma write_packages_file:
  "write_packages ps t = (r, t') \<Longrightarrow> t q = Some (File c) \<Longrightarrow> \<exists>c'. t' q = Some (File c')"
proof (induction ps arbitrary: t c)
  case Nil
  then show ?case by simp
next
  case (Cons p ps)
  obtain k files where p: "p = (k, files)" by (cases p)
  obtain e1 t1 where m: "mkdir_p t [''simple'', k] = (e1, t1)" by (cases "mkdir_p t [''simple'', k]")
  obtain e2 t2 where w: "write_text t1 (page_path k) (pkg_html k (map file_link files)) = (e2, t2)"
    by (cases "write_text t1 (page_path k) (pkg_html k (map file_link files))")
  have q1: "t1 q = Some (File c)" using m Cons.prems(2) by (rule mkdir_p_mono)
  from write_text_file [OF w q1] obtain c2 where q2: "t2 q = Some (File c2)" ..
  show ?case
  proof (cases e1)
    case (Some e)
    with Cons.prems(1) p m q1 show ?thesis by simp
  next
    case None
    note e1 = this
    show ?thesis
    proof (cases e2)
      case (Some e)
      with Cons.prems(1) p m w e1 q2 show ?thesis by (simp add: page_path_def)
    next
      case None
      with Cons.prems(1) p m w e1 have "write_packages ps t2 = (r, t')"
        by (simp add: page_path_def)
      then show ?thesis using q2 Cons.IH by blast
    qed
  qed
qed

lemma write_packages_done:
  "write_packages ps t = (None, t') \<Longrightarrow> distinct (map fst ps) \<Longrightarrow> (k, files) \<in> set ps \<Longrightarrow>
   t' [''simple'', k] = Some Dir
   \<and> t' (page_path k) = Some (File (pkg_html k (map file_link files)))"
proof (induction ps arbitrary: t)
  case Nil
  then show ?case by simp
next
  case (Cons p ps)
  obtain k0 f0 where p: "p = (k0, f0)" by (cases p)
  from Cons.prems(1) p obtain t1 t2 where
    m: "mkdir_p t [''simple'', k0] = (None, t1)" and
    w: "write_text t1 (page_path k0) (pkg_html k0 (map file_link f0)) = (None, t2)" and
    r: "write_packages ps t2 = (None, t')"
    by (auto simp: page_path_def split: prod.splits option.splits)
  show ?case
  proof (cases "(k, files) = (k0, f0)")
    case True
    have "t1 [''simple'', k0] = Some Dir" using m by (rule mkdir_p_two)
    with w have d: "t2 [''simple'', k0] = Some Dir" by (rule write_text_dir)
    have f: "t2 (page_path k0) = Some (File (pkg_html k0 (map file_link f0)))"
      using w by (rule write_text_done)
    from Cons.prems(2) p have "\<forall>k \<in> fst ` set ps. page_path k0 \<noteq> page_path k"
      by (auto simp: page_path_def)
    with write_packages_keeps [OF r d] write_packages_keeps [OF r f] True
    show ?thesis by simp
  next
    case False
    with Cons.prems(3) p have "(k, files) \<in> set ps" by auto
    moreover from Cons.prems(2) have "distinct (map fst ps)" by simp
    ultimately show ?thesis using r Cons.IH by blast
  qed
qed

lemma write_packages_idem:
  "t [] = Some Dir \<Longrightarrow> t [''simple''] = Some Dir \<Longrightarrow>
   (\<forall>(k, files) \<in> set ps. t [''simple'', k] = Some Dir
       \<and> t (page_path k) = Some (File (pkg_html k (map file_link files)))) \<Longrightarrow>
   write_packages ps t = (None, t)"
proof (induction ps)
  case Nil
  show ?case by simp
next
  case (Cons p ps)
  obtain k files where p: "p = (k, files)" by (cases p)
  from Cons.prems(3) p have d: "t [''simple'', k] = Some Dir"
    and f: "t (page_path k) = Some (File (pkg_html k (map file_link files)))"
    by auto
  have m: "mkdir_p t [''simple'', k] = (None, t)"
    using Cons.prems(1,2) d by (rule mkdir_p_two_idem)
  have w: "write_text t (page_path k) (pkg_html k (map file_link files)) = (None, t)"
    using f d by (intro write_text_idem) (simp_all add: page_path_def)
  from Cons have "write_packages ps t = (None, t)" by simp
  with p m w show ?case by (simp add: page_path_def)
qed

lemma groups_keys:
  "fst ` set (package_groups hexdigest listing) = {k. \<exists>f \<in> set listing. pkg_of f = Some k}"
  by (simp add: package_groups_def collect_keys)

lemma groups_distinct: "distinct (map fst (package_groups hexdigest listing))"
  unfolding package_groups_def by (rule collect_distinct) simp



lemma root_not_page: "root_page \<noteq> page_path k"
  by (simp add: root_page_def page_path_def)

lemma generate_index_stages:
  fixes hexdigest listing t
  defines "pf \<equiv> package_groups hexdigest listing"
  defines "s1 \<equiv> mkdir_p t [''simple'']"
  defines "s2 \<equiv> write_text (snd s1) root_page (root_html (map root_link (sort (map fst pf))))"
  defines "s3 \<equiv> write_packages (sort_key fst pf) (snd s2)"
  shows "generate_index hexdigest (Some listing) t =
     (case fst s1 of Some e \<Rightarrow> (Inl e, snd s1)
      | None \<Rightarrow> (case fst s2 of Some e \<Rightarrow> (Inl e, snd s2)
          | None \<Rightarrow> (case fst s3 of Some e \<Rightarrow> (Inl e, snd s3)
              | None \<Rightarrow> (Inr (summary pf), snd s3))))"
proof -
  obtain e1 t1 where a: "mkdir_p t [''simple''] = (e1, t1)"
    by (cases "mkdir_p t [''simple'']")
  obtain e2 t2 where b: "write_text t1 [''simple'', ''index.html'']
      (root_html (map root_link (sort (map fst (collect hexdigest (sort_key ename listing) [])))))
      = (e2, t2)"
    by (cases "write_text t1 [''simple'', ''index.html'']
      (root_html (map root_link (sort (map fst (collect hexdigest (sort_key ename listing) [])))))")
  obtain e3 t3 where c:
    "write_packages (sort_key fst (collect hexdigest (sort_key ename listing) [])) t2 = (e3, t3)"
    by (cases "write_packages (sort_key fst (collect hexdigest (sort_key ename listing) [])) t2")
  show ?thesis
    unfolding generate_index_def pf_def s1_def s2_def s3_def package_groups_def summary_def
      root_page_def
    by (simp add: a b c Let_def split: option.splits)
qed

lemma generate_index_keeps:
  assumes g: "generate_index hexdigest packages_dir t = (r, t')"
    and q: "t q = Some n"
    and n: "n = Dir \<or> \<not> is_written_page packages_dir q"
  shows "t' q = Some n"
proof (cases packages_dir)
  case None
  with g q show ?thesis by (simp add: generate_index_def)
next
  case (Some listing)
  define pf where "pf = package_groups hexdigest listing"
  define s1 where "s1 = mkdir_p t [''simple'']"
  define s2 where "s2 = write_text (snd s1) root_page (root_html (map root_link (sort (map fst pf))))"
  define s3 where "s3 = write_packages (sort_key fst pf) (snd s2)"
  have k1: "snd s1 q = Some n"
    using q by (intro mkdir_p_mono [of t "[''simple'']" "fst s1" "snd s1"]) (simp_all add: s1_def)
  from n Some have n2: "n = Dir \<or> q \<noteq> root_page"
    by (auto simp: is_written_page_def)
  have k2: "snd s2 q = Some n"
    using k1 n2
    by (intro write_text_keeps [of "snd s1" root_page _ "fst s2" "snd s2"]) (simp_all add: s2_def)
  have "\<forall>k \<in> fst ` set pf. q \<noteq> page_path k" if "n \<noteq> Dir"
  proof
    fix k assume "k \<in> fst ` set pf"
    then obtain f where "f \<in> set listing" "pkg_of f = Some k"
      by (auto simp: pf_def groups_keys)
    with n Some that show "q \<noteq> page_path k"
      by (auto simp: is_written_page_def list_ex_iff split: option.splits)
  qed
  then have n3: "n = Dir \<or> (\<forall>k \<in> fst ` set (sort_key fst pf). q \<noteq> page_path k)"
    by auto
  have k3: "snd s3 q = Some n"
    using k2 n3
    by (intro write_packages_keeps [of "sort_key fst pf" "snd s2" "fst s3" "snd s3"])
       (simp_all add: s3_def)
  have "generate_index hexdigest (Some listing) t =
     (case fst s1 of Some e \<Rightarrow> (Inl e, snd s1)
      | None \<Rightarrow> (case fst s2 of Some e \<Rightarrow> (Inl e, snd s2)
          | None \<Rightarrow> (case fst s3 of Some e \<Rightarrow> (Inl e, snd s3)
              | None \<Rightarrow> (Inr (summary pf), snd s3))))"
    unfolding s1_def s2_def s3_def pf_def by (rule generate_index_stages)
  with g Some have "t' = snd s1 \<or> t' = snd s2 \<or> t' = snd s3"
    by (auto split: option.splits)
  with k1 k2 k3 show ?thesis by auto
qed

lemma generate_index_file:
  assumes g: "generate_index hexdigest packages_dir t = (r, t')"
    and q: "t q = Some (File c)"
  shows "\<exists>c'. t' q = Some (File c')"
proof (cases packages_dir)
  case None
  with g q show ?thesis by (simp add: generate_index_def)
next
  case (Some listing)
  define pf where "pf = package_groups hexdigest listing"
  define s1 where "s1 = mkdir_p t [''simple'']"
  define s2 where "s2 = write_text (snd s1) root_page (root_html (map root_link (sort (map fst pf))))"
  define s3 where "s3 = write_packages (sort_key fst pf) (snd s2)"
  have k1: "snd s1 q = Some (File c)"
    using q by (intro mkdir_p_mono [of t "[''simple'']" "fst s1" "snd s1"]) (simp_all add: s1_def)
  have "\<exists>c'. snd s2 q = Some (File c')"
    using k1
    by (intro write_text_file [of "snd s1" root_page _ "fst s2" "snd s2"]) (simp_all add: s2_def)
  then obtain c2 where k2: "snd s2 q = Some (File c2)" ..
  have k3: "\<exists>c'. snd s3 q = Some (File c')"
    using k2
    by (intro write_packages_file [of "sort_key fst pf" "snd s2" "fst s3" "snd s3"])
       (simp_all add: s3_def)
  have "generate_index hexdigest (Some listing) t =
     (case fst s1 of Some e \<Rightarrow> (Inl e, snd s1)
      | None \<Rightarrow> (case fst s2 of Some e \<Rightarrow> (Inl e, snd s2)
          | None \<Rightarrow> (case fst s3 of Some e \<Rightarrow> (Inl e, snd s3)
              | None \<Rightarrow> (Inr (summary pf), snd s3))))"
    unfolding s1_def s2_def s3_def pf_def by (rule generate_index_stages)
  with g Some have "t' = snd s1 \<or> t' = snd s2 \<or> t' = snd s3"
    by (auto split: option.splits)
  with k1 k2 k3 show ?thesis by auto
qed

lemma generate_index_success:
  assumes "generate_index hexdigest (Some listing) t = (Inr msg, t')"
  shows "\<exists>t1 t2. mkdir_p t [''simple''] = (None, t1)
     \<and> write_text t1 root_page
          (root_html (map root_link (sort (map fst (package_groups hexdigest listing))))) = (None, t2)
     \<and> write_packages (sort_key fst (package_groups hexdigest listing)) t2 = (None, t')
     \<and> msg = summary (package_groups hexdigest listing)"
  using assms unfolding generate_index_stages
  by (auto split: option.splits simp: prod_eq_iff)

lemma generate_index_settled:
  assumes "generate_index hexdigest (Some listing) t = (Inr msg, t')"
  shows "t' [] = Some Dir" and "t' [''simple''] = Some Dir"
    and "t' root_page = Some (File
           (root_html (map root_link (sort (map fst (package_groups hexdigest listing))))))"
    and "\<forall>(k, files) \<in> set (sort_key fst (package_groups hexdigest listing)).
           t' [''simple'', k] = Some Dir
           \<and> t' (page_path k) = Some (File (pkg_html k (map file_link files)))"
    and "msg = summary (package_groups hexdigest listing)"
proof -
  let ?pf = "package_groups hexdigest listing"
  from generate_index_success [OF assms] obtain t1 t2 where
    m: "mkdir_p t [''simple''] = (None, t1)" and
    w: "write_text t1 root_page (root_html (map root_link (sort (map fst ?pf)))) = (None, t2)" and
    p: "write_packages (sort_key fst ?pf) t2 = (None, t')" and
    s: "msg = summary ?pf"
    by blast
  from mkdir_p_one [OF m] have "t1 [] = Some Dir" "t1 [''simple''] = Some Dir" by simp_all
  then have "t2 [] = Some Dir" "t2 [''simple''] = Some Dir"
    using w by (auto intro: write_text_dir)
  then show "t' [] = Some Dir" and "t' [''simple''] = Some Dir"
    using p by (auto intro: write_packages_keeps)
  have "t2 root_page = Some (File (root_html (map root_link (sort (map fst ?pf)))))"
    using w by (rule write_text_done)
  then show "t' root_page = Some (File (root_html (map root_link (sort (map fst ?pf)))))"
    using p root_not_page by (auto intro: write_packages_keeps)
  have "distinct (map fst (sort_key fst ?pf))"
    using groups_distinct [of hexdigest listing]
    by (metis distinct_map distinct_sort set_sort)
  with p show "\<forall>(k, files) \<in> set (sort_key fst ?pf).
           t' [''simple'', k] = Some Dir
           \<and> t' (page_path k) = Some (File (pkg_html k (map file_link files)))"
    using write_packages_done by blast
  show "msg = summary ?pf" by (rule s)
qed

lemma generate_index_again:
  assumes "t [] = Some Dir" and "t [''simple''] = Some Dir"
    and "t root_page = Some (File
           (root_html (map root_link (sort (map fst (package_groups hexdigest listing))))))"
    and "\<forall>(k, files) \<in> set (sort_key fst (package_groups hexdigest listing)).
           t [''simple'', k] = Some Dir
           \<and> t (page_path k) = Some (File (pkg_html k (map file_link files)))"
  shows "generate_index hexdigest (Some listing) t
           = (Inr (summary (package_groups hexdigest listing)), t)"
proof -
  let ?pf = "package_groups hexdigest listing"
  have m: "mkdir_p t [''simple''] = (None, t)"
    using assms(1,2) by (rule mkdir_p_one_idem)
  have w: "write_text t root_page (root_html (map root_link (sort (map fst ?pf)))) = (None, t)"
    using assms(2,3) by (intro write_text_idem) (simp_all add: root_page_def)
  have p: "write_packages (sort_key fst ?pf) t = (None, t)"
    using assms(1,2,4) by (rule write_packages_idem)
  show ?thesis
    unfolding generate_index_stages by (simp add: m w p)
qed

lemma filter_key_short:
  "distinct (map f xs) \<Longrightarrow> length (filter (\<lambda>x. f k = f x) xs) \<le> 1"
proof (induction xs)
  case Nil
  show ?case by simp
next
  case (Cons x xs)
  show ?case
  proof (cases "f k = f x")
    case True
    with Cons.prems have "filter (\<lambda>y. f k = f y) xs = []"
      by (auto simp: filter_empty_conv)
    with True show ?thesis by simp
  next
    case False
    with Cons show ?thesis by simp
  qed
qed

lemma mset_short_eq: "mset a = mset b \<Longrightarrow> length a \<le> 1 \<Longrightarrow> a = b"
  by (cases a; cases b) auto

lemma sort_key_perm:
  assumes "mset ys = mset xs" and "distinct (map f xs)"
  shows "sort_key f ys = sort_key f xs"
proof (rule properties_for_sort_key)
  show "mset (sort_key f xs) = mset ys" using assms(1) by simp
  show "sorted (map f (sort_key f xs))" by simp
  fix k
  have "mset (map f (sort_key f xs)) = mset (map f xs)" by simp
  then have "distinct (map f (sort_key f xs))"
    using assms(2) mset_eq_imp_distinct_iff by blast
  then have "length (filter (\<lambda>x. f k = f x) (sort_key f xs)) \<le> 1"
    by (rule filter_key_short)
  moreover have "mset (filter (\<lambda>x. f k = f x) (sort_key f xs)) = mset (filter (\<lambda>x. f k = f x) ys)"
    using assms(1) by simp
  ultimately show "filter (\<lambda>x. f k = f x) (sort_key f xs) = filter (\<lambda>x. f k = f x) ys"
    by (rule mset_short_eq [rotated])
qed

lemma groups_perm:
  "mset d2 = mset d1 \<Longrightarrow> distinct (map ename d1) \<Longrightarrow>
   package_groups hexdigest d2 = package_groups hexdigest d1"
  using sort_key_perm [of d2 d1 ename] by (simp add: package_groups_def)

lemma groups_skip:
  assumes "pkg_of f = None"
  shows "package_groups hexdigest (xs @ f # ys) = package_groups hexdigest (xs @ ys)"
proof -
  let ?kept = "\<lambda>f. pkg_of f \<noteq> None"
  have "package_groups hexdigest (xs @ f # ys)
      = collect hexdigest (sort_key ename (filter ?kept (xs @ f # ys))) []"
    unfolding package_groups_def by (subst collect_filter) (simp only: filter_sort)
  also have "filter ?kept (xs @ f # ys) = filter ?kept (xs @ ys)"
    using assms by simp
  also have "collect hexdigest (sort_key ename (filter ?kept (xs @ ys))) []
      = package_groups hexdigest (xs @ ys)"
    unfolding package_groups_def by (subst (2) collect_filter) (simp only: filter_sort)
  finally show ?thesis .
qed

lemma generate_index_groups:
  assumes "package_groups hexdigest d2 = package_groups hexdigest d1"
  shows "generate_index hexdigest (Some d2) t = generate_index hexdigest (Some d1) t"
  unfolding generate_index_stages assms by (rule refl)

lemma pkg_of_Some:
  "pkg_of f = Some k \<longleftrightarrow> is_file f \<and> extract_package_name (ename f) = Some k \<and> k \<noteq> []"
  by (auto simp: pkg_of_def split: option.splits)

lemma root_links_sorted:
  "sorted_wrt (<) (sort (map fst (package_groups hexdigest listing)))"
  using groups_distinct [of hexdigest listing] by (simp add: strict_sorted_iff)

lemma root_html_text:
  "root_html ls = ''<!DOCTYPE html>'' @ [CHR 0x0A] @ ''<html><head><title>Simple Index</title>''
     @ ''<meta name=\"api-version\" value=\"2\"/></head>'' @ [CHR 0x0A] @ ''<body>'' @ [CHR 0x0A]
     @ join [CHR 0x0A] ls @ [CHR 0x0A] @ ''</body></html>''"
  by (simp add: root_html_def)


lemma root_link_text: "root_link = (\<lambda>n. ''    <a href=\"'' @ n @ ''/\">'' @ n @ ''</a>'')"
  by (rule ext) (simp add: root_link_def)



lemma root_page_settled:
  assumes "generate_index hexdigest (Some listing) t = (Inr msg, t')"
  shows "\<exists>names.
        t' [''simple'', ''index.html''] = Some (File (root_html (map root_link names)))
        \<and> sorted_wrt (<) names
        \<and> set names = {n. n \<noteq> [] \<and>
              (\<exists>f \<in> set listing. is_file f \<and> extract_package_name (ename f) = Some n)}"
proof -
  let ?names = "sort (map fst (package_groups hexdigest listing))"
  have "t' [''simple'', ''index.html''] = Some (File (root_html (map root_link ?names)))"
    using generate_index_settled(3) [OF assms] by (simp add: root_page_def)
  moreover have "set ?names = {n. n \<noteq> [] \<and>
      (\<exists>f \<in> set listing. is_file f \<and> extract_package_name (ename f) = Some n)}"
    using groups_keys [of hexdigest listing] by (auto simp: pkg_of_Some)
  ultimately show ?thesis
    using root_links_sorted [of hexdigest listing] by blast
qed


text \<open>
  Claim C7, as amended. After a run of the index builder that succeeds, the root page
  \<open>simple/index.html\<close> consists of the fixed head, one link line per name of
  \<open>names\<close> with target \<open><name>/\<close>, joined by line feeds, and the fixed tail, where
  \<open>names\<close> is strictly increasing in the lexicographic order of strings (so ordered and
  without repetition) and holds exactly the non-empty package names that classification gives
  for the files of the artifact directory. The root page of a directory with three packages, a
  stray file and a subdirectory is given in full.
\<close>

theorem root_index_links:
  "(generate_index hexdigest (Some listing) t = (Inr msg, t') \<longrightarrow>
     (\<exists>names.
        t' [''simple'', ''index.html''] =
          Some (File (''<!DOCTYPE html>'' @ [CHR 0x0A] @ ''<html><head><title>Simple Index</title>''
            @ ''<meta name=\"api-version\" value=\"2\"/></head>'' @ [CHR 0x0A] @ ''<body>'' @ [CHR 0x0A]
            @ join [CHR 0x0A] (map (\<lambda>n. ''    <a href=\"'' @ n @ ''/\">'' @ n @ ''</a>'') names)
            @ [CHR 0x0A] @ ''</body></html>''))
        \<and> sorted_wrt (<) names
        \<and> set names = {n. n \<noteq> [] \<and>
              (\<exists>f \<in> set listing. is_file f \<and> extract_package_name (ename f) = Some n)}))
   \<and> snd (generate_index (\<lambda>b. ''00'')
          (Some [Entry ''zlib-1.3.tar.gz'' True [], Entry ''requests-2.31.0.tar.gz'' True [],
                 Entry ''Flask_Cors-4.0.zip'' True [], Entry ''notes.txt'' True [],
                 Entry ''requests-2.31.0-py3-none-any.whl'' True [], Entry ''attrs-1.0'' False []])
          Map.empty) [''simple'', ''index.html'']
       = Some (File (''<!DOCTYPE html>'' @ [CHR 0x0A] @ ''<html><head><title>Simple Index</title>''
            @ ''<meta name=\"api-version\" value=\"2\"/></head>'' @ [CHR 0x0A] @ ''<body>'' @ [CHR 0x0A]
            @ ''    <a href=\"flask-cors/\">flask-cors</a>'' @ [CHR 0x0A]
            @ ''    <a href=\"requests/\">requests</a>'' @ [CHR 0x0A]
            @ ''    <a href=\"zlib/\">zlib</a>'' @ [CHR 0x0A] @ ''</body></html>''))"
proof -
  have c: "snd (generate_index (\<lambda>b. ''00'')
          (Some [Entry ''zlib-1.3.tar.gz'' True [], Entry ''requests-2.31.0.tar.gz'' True [],
                 Entry ''Flask_Cors-4.0.zip'' True [], Entry ''notes.txt'' True [],
                 Entry ''requests-2.31.0-py3-none-any.whl'' True [], Entry ''attrs-1.0'' False []])
          Map.empty) [''simple'', ''index.html'']
       = Some (File (''<!DOCTYPE html>'' @ [CHR 0x0A] @ ''<html><head><title>Simple Index</title>''
            @ ''<meta name=\"api-version\" value=\"2\"/></head>'' @ [CHR 0x0A] @ ''<body>'' @ [CHR 0x0A]
            @ ''    <a href=\"flask-cors/\">flask-cors</a>'' @ [CHR 0x0A]
            @ ''    <a href=\"requests/\">requests</a>'' @ [CHR 0x0A]
            @ ''    <a href=\"zlib/\">zlib</a>'' @ [CHR 0x0A] @ ''</body></html>''))"
    by code_simp
  show ?thesis
    using c root_page_settled [of hexdigest listing t msg t']
    unfolding root_html_text root_link_text by blast
qed

theorem root_index_links_witness:
  "fst (generate_index (\<lambda>b. ''00'')
          (Some [Entry ''b-2.zip'' True [], Entry ''A.x-1.whl'' True [], Entry ''-1.whl'' True [],
                 Entry ''a_x-2.tar.gz'' True []]) Map.empty)
     = Inr ''Generated index: 2 packages, 3 files''
   \<and> (\<exists>names.
        snd (generate_index (\<lambda>b. ''00'')
          (Some [Entry ''b-2.zip'' True [], Entry ''A.x-1.whl'' True [], Entry ''-1.whl'' True [],
                 Entry ''a_x-2.tar.gz'' True []]) Map.empty) [''simple'', ''index.html''] =
          Some (File (''<!DOCTYPE html>'' @ [CHR 0x0A] @ ''<html><head><title>Simple Index</title>''
            @ ''<meta name=\"api-version\" value=\"2\"/></head>'' @ [CHR 0x0A] @ ''<body>'' @ [CHR 0x0A]
            @ join [CHR 0x0A] (map (\<lambda>n. ''    <a href=\"'' @ n @ ''/\">'' @ n @ ''</a>'') names)
            @ [CHR 0x0A] @ ''</body></html>''))
        \<and> sorted_wrt (<) names
        \<and> set names = {n. n \<noteq> [] \<and>
              (\<exists>f \<in> set [Entry ''b-2.zip'' True [], Entry ''A.x-1.whl'' True [],
                            Entry ''-1.whl'' True [], Entry ''a_x-2.tar.gz'' True []].
                 is_file f \<and> extract_package_name (ename f) = Some n)})"
proof -
  let ?L = "[Entry ''b-2.zip'' True [], Entry ''A.x-1.whl'' True [], Entry ''-1.whl'' True [],
             Entry ''a_x-2.tar.gz'' True []]"
  have m: "fst (generate_index (\<lambda>b. ''00'') (Some ?L) Map.empty)
      = Inr ''Generated index: 2 packages, 3 files''"
    by code_simp
  then have g: "generate_index (\<lambda>b. ''00'') (Some ?L) Map.empty
      = (Inr ''Generated index: 2 packages, 3 files'',
         snd (generate_index (\<lambda>b. ''00'') (Some ?L) Map.empty))"
    by (simp add: prod_eq_iff)
  from root_index_links [of "\<lambda>b. ''00''" ?L Map.empty "''Generated index: 2 packages, 3 files''"
      "snd (generate_index (\<lambda>b. ''00'') (Some ?L) Map.empty)"] g m
  show ?thesis by blast
qed

text \<open>
  Claim C7 as stated fails: the file \<open>-1.whl\<close> is classified, under the empty package
  name, so an artifact directory holding only this file has one distinct package name among its
  classified artifacts; the index builder skips an empty name, and the root page it writes has
  no link at all.
\<close>

theorem root_index_empty_name_counterexample:
  "is_file (Entry ''-1.whl'' True []) \<and> extract_package_name (ename (Entry ''-1.whl'' True [])) = Some []
   \<and> fst (generate_index (\<lambda>b. ''00'') (Some [Entry ''-1.whl'' True []]) Map.empty)
       = Inr ''Generated index: 0 packages, 0 files''
   \<and> snd (generate_index (\<lambda>b. ''00'') (Some [Entry ''-1.whl'' True []]) Map.empty)
        [''simple'', ''index.html'']
       = Some (File (''<!DOCTYPE html>'' @ [CHR 0x0A] @ ''<html><head><title>Simple Index</title>''
            @ ''<meta name=\"api-version\" value=\"2\"/></head>'' @ [CHR 0x0A] @ ''<body>'' @ [CHR 0x0A]
            @ [CHR 0x0A] @ ''</body></html>''))"
  by code_simp



text \<open>
  Claim C5. Let a run of the index builder on an artifact directory (whose entries have distinct
  names) succeed with message \<open>msg\<close> and output tree \<open>t'\<close>. A second run on
  the same directory contents, in whatever order the directory lists them, started on
  \<open>t'\<close>, succeeds with the same message and leaves exactly the tree \<open>t'\<close>:
  every page it writes has the content the first run wrote.
\<close>

theorem rebuild_is_idempotent:
  "distinct (map ename d1) \<and> mset d2 = mset d1
     \<and> generate_index hexdigest (Some d1) t = (Inr msg, t') \<longrightarrow>
   generate_index hexdigest (Some d2) t' = (Inr msg, t')"
proof
  assume a: "distinct (map ename d1) \<and> mset d2 = mset d1
     \<and> generate_index hexdigest (Some d1) t = (Inr msg, t')"
  then have g: "generate_index hexdigest (Some d1) t = (Inr msg, t')" by simp
  from a have "package_groups hexdigest d2 = package_groups hexdigest d1"
    using groups_perm [of d2 d1 hexdigest] by simp
  then have "generate_index hexdigest (Some d2) t' = generate_index hexdigest (Some d1) t'"
    by (rule generate_index_groups)
  also have "\<dots> = (Inr (summary (package_groups hexdigest d1)), t')"
    using generate_index_settled(1-4) [OF g] by (rule generate_index_again)
  also have "summary (package_groups hexdigest d1) = msg"
    using generate_index_settled(5) [OF g] by simp
  finally show "generate_index hexdigest (Some d2) t' = (Inr msg, t')" .
qed

theorem rebuild_is_idempotent_witness:
  "distinct (map ename [Entry ''b-2.zip'' True [3], Entry ''a-1.tar.gz'' True []])
   \<and> mset [Entry ''a-1.tar.gz'' True [], Entry ''b-2.zip'' True [3]]
       = mset [Entry ''b-2.zip'' True [3], Entry ''a-1.tar.gz'' True []]
   \<and> fst (generate_index (\<lambda>b. if b = [] then ''e3b0'' else ''4bf5'')
          (Some [Entry ''b-2.zip'' True [3], Entry ''a-1.tar.gz'' True []]) Map.empty)
       = Inr ''Generated index: 2 packages, 2 files''
   \<and> snd (generate_index (\<lambda>b. if b = [] then ''e3b0'' else ''4bf5'')
          (Some [Entry ''b-2.zip'' True [3], Entry ''a-1.tar.gz'' True []]) Map.empty)
        [''simple'', ''b'', ''index.html'']
       = Some (File (''<!DOCTYPE html>'' @ [CHR 0x0A] @ ''<html><head><title>b</title>''
            @ ''<meta name=\"api-version\" value=\"2\"/></head>'' @ [CHR 0x0A] @ ''<body>'' @ [CHR 0x0A]
            @ ''    <a href=\"../../packages/b-2.zip#sha256=4bf5\">b-2.zip</a>''
            @ [CHR 0x0A] @ ''</body></html>''))
   \<and> generate_index (\<lambda>b. if b = [] then ''e3b0'' else ''4bf5'')
        (Some [Entry ''a-1.tar.gz'' True [], Entry ''b-2.zip'' True [3]])
        (snd (generate_index (\<lambda>b. if b = [] then ''e3b0'' else ''4bf5'')
          (Some [Entry ''b-2.zip'' True [3], Entry ''a-1.tar.gz'' True []]) Map.empty))
       = (Inr ''Generated index: 2 packages, 2 files'',
          snd (generate_index (\<lambda>b. if b = [] then ''e3b0'' else ''4bf5'')
            (Some [Entry ''b-2.zip'' True [3], Entry ''a-1.tar.gz'' True []]) Map.empty))"
proof -
  let ?H = "\<lambda>b::bytes. if b = [] then ''e3b0'' else ''4bf5''"
  let ?d1 = "[Entry ''b-2.zip'' True [3], Entry ''a-1.tar.gz'' True []]"
  let ?d2 = "[Entry ''a-1.tar.gz'' True [], Entry ''b-2.zip'' True [3]]"
  have h1: "distinct (map ename ?d1)" by code_simp
  have h2: "mset ?d2 = mset ?d1" by simp
  have m: "fst (generate_index ?H (Some ?d1) Map.empty) = Inr ''Generated index: 2 packages, 2 files''"
    by code_simp
  then have g: "generate_index ?H (Some ?d1) Map.empty
      = (Inr ''Generated index: 2 packages, 2 files'', snd (generate_index ?H (Some ?d1) Map.empty))"
    by (simp add: prod_eq_iff)
  have p: "snd (generate_index ?H (Some ?d1) Map.empty) [''simple'', ''b'', ''index.html'']
       = Some (File (''<!DOCTYPE html>'' @ [CHR 0x0A] @ ''<html><head><title>b</title>''
            @ ''<meta name=\"api-version\" value=\"2\"/></head>'' @ [CHR 0x0A] @ ''<body>'' @ [CHR 0x0A]
            @ ''    <a href=\"../../packages/b-2.zip#sha256=4bf5\">b-2.zip</a>''
            @ [CHR 0x0A] @ ''</body></html>''))"
    by code_simp
  from rebuild_is_idempotent [of ?d1 ?d2 ?H Map.empty "''Generated index: 2 packages, 2 files''"
      "snd (generate_index ?H (Some ?d1) Map.empty)"] h1 h2 g
  have "generate_index ?H (Some ?d2) (snd (generate_index ?H (Some ?d1) Map.empty))
       = (Inr ''Generated index: 2 packages, 2 files'', snd (generate_index ?H (Some ?d1) Map.empty))"
    by blast
  with h1 h2 m p show ?thesis by blast
qed

text \<open>
  Claim C10. Whatever a run of the index builder ends with, a directory of the output tree is
  still a directory afterwards, and a file is still a file; a file that is not one of the index
  pages of this run (the root page and the pages of the packages of the current artifact
  directory, \<^term>\<open>is_written_page\<close>) keeps its content. In particular the page of a
  package whose artifacts are gone from the artifact directory stays as the earlier run wrote
  it.
\<close>

theorem index_builder_keeps_tree:
  "generate_index hexdigest packages_dir t = (r, t') \<longrightarrow>
     (t q = Some Dir \<longrightarrow> t' q = Some Dir)
     \<and> (t q = Some (File c) \<longrightarrow>
          (\<exists>c'. t' q = Some (File c'))
          \<and> (\<not> is_written_page packages_dir q \<longrightarrow> t' q = Some (File c)))"
  using generate_index_keeps [of hexdigest packages_dir t r t' q]
    generate_index_file [of hexdigest packages_dir t r t' q c]
  by blast

theorem index_builder_keeps_tree_witness:
  "snd (generate_index (\<lambda>b. ''00'') (Some [Entry ''a-1.tar.gz'' True []]) Map.empty)
      [''simple'', ''a'', ''index.html'']
     = Some (File (''<!DOCTYPE html>'' @ [CHR 0x0A] @ ''<html><head><title>a</title>''
          @ ''<meta name=\"api-version\" value=\"2\"/></head>'' @ [CHR 0x0A] @ ''<body>'' @ [CHR 0x0A]
          @ ''    <a href=\"../../packages/a-1.tar.gz#sha256=00\">a-1.tar.gz</a>''
          @ [CHR 0x0A] @ ''</body></html>''))
   \<and> \<not> is_written_page (Some [Entry ''b-2.zip'' True []]) [''simple'', ''a'', ''index.html'']
   \<and> fst (generate_index (\<lambda>b. ''00'') (Some [Entry ''b-2.zip'' True []])
          (snd (generate_index (\<lambda>b. ''00'') (Some [Entry ''a-1.tar.gz'' True []]) Map.empty)))
       = Inr ''Generated index: 1 packages, 1 files''
   \<and> snd (generate_index (\<lambda>b. ''00'') (Some [Entry ''b-2.zip'' True []])
          (snd (generate_index (\<lambda>b. ''00'') (Some [Entry ''a-1.tar.gz'' True []]) Map.empty)))
        [''simple'', ''a'', ''index.html'']
     = Some (File (''<!DOCTYPE html>'' @ [CHR 0x0A] @ ''<html><head><title>a</title>''
          @ ''<meta name=\"api-version\" value=\"2\"/></head>'' @ [CHR 0x0A] @ ''<body>'' @ [CHR 0x0A]
          @ ''    <a href=\"../../packages/a-1.tar.gz#sha256=00\">a-1.tar.gz</a>''
          @ [CHR 0x0A] @ ''</body></html>''))
   \<and> snd (generate_index (\<lambda>b. ''00'') (Some [Entry ''b-2.zip'' True []])
          (snd (generate_index (\<lambda>b. ''00'') (Some [Entry ''a-1.tar.gz'' True []]) Map.empty)))
        [''simple'', ''index.html'']
     = Some (File (''<!DOCTYPE html>'' @ [CHR 0x0A] @ ''<html><head><title>Simple Index</title>''
          @ ''<meta name=\"api-version\" value=\"2\"/></head>'' @ [CHR 0x0A] @ ''<body>'' @ [CHR 0x0A]
          @ ''    <a href=\"b/\">b</a>'' @ [CHR 0x0A] @ ''</body></html>''))"
proof -
  let ?H = "\<lambda>b::bytes. ''00''"
  let ?t1 = "snd (generate_index ?H (Some [Entry ''a-1.tar.gz'' True []]) Map.empty)"
  let ?B = "Some [Entry ''b-2.zip'' True []]"
  let ?page = "''<!DOCTYPE html>'' @ [CHR 0x0A] @ ''<html><head><title>a</title>''
          @ ''<meta name=\"api-version\" value=\"2\"/></head>'' @ [CHR 0x0A] @ ''<body>'' @ [CHR 0x0A]
          @ ''    <a href=\"../../packages/a-1.tar.gz#sha256=00\">a-1.tar.gz</a>''
          @ [CHR 0x0A] @ ''</body></html>''"
  have h1: "?t1 [''simple'', ''a'', ''index.html''] = Some (File ?page)" by code_simp
  have h2: "\<not> is_written_page ?B [''simple'', ''a'', ''index.html'']" by code_simp
  have m: "fst (generate_index ?H ?B ?t1) = Inr ''Generated index: 1 packages, 1 files''"
    by code_simp
  have rp: "snd (generate_index ?H ?B ?t1) [''simple'', ''index.html'']
     = Some (File (''<!DOCTYPE html>'' @ [CHR 0x0A] @ ''<html><head><title>Simple Index</title>''
          @ ''<meta name=\"api-version\" value=\"2\"/></head>'' @ [CHR 0x0A] @ ''<body>'' @ [CHR 0x0A]
          @ ''    <a href=\"b/\">b</a>'' @ [CHR 0x0A] @ ''</body></html>''))"
    by code_simp
  have g: "generate_index ?H ?B ?t1 = (fst (generate_index ?H ?B ?t1), snd (generate_index ?H ?B ?t1))"
    by simp
  from index_builder_keeps_tree [of ?H ?B ?t1 "fst (generate_index ?H ?B ?t1)"
      "snd (generate_index ?H ?B ?t1)" "[''simple'', ''a'', ''index.html'']" ?page] g h1 h2
  have "snd (generate_index ?H ?B ?t1) [''simple'', ''a'', ''index.html''] = Some (File ?page)"
    by blast
  with h1 h2 m rp show ?thesis by blast
qed

lemma leading_dash: "startswith f ''-'' \<Longrightarrow> takeWhile (\<lambda>c. c \<noteq> CHR ''-'') f = []"
  by (cases f) (simp_all add: startswith_def)

lemma no_dash: "CHR ''-'' \<notin> set f \<Longrightarrow> takeWhile (\<lambda>c. c \<noteq> CHR ''-'') f = f"
  by (induction f) auto

lemma normalize_Nil: "normalize [] = []"
  by (simp add: normalize_def lower_def)

text \<open>
  Claim C9. A file name ending in \<open>.whl\<close> is never classified as none. When it contains
  no \<open>-\<close> its package name is the normalization of the whole file name, suffix included
  (\<open>foo.whl\<close> gives \<open>foo-whl\<close>). When it begins with \<open>-\<close> its package
  name is the empty string, and the index builder drops the entry: the run on a directory
  listing with this entry is the run on the listing without it.
\<close>

theorem whl_always_classified:
  "(endswith f ''.whl'' \<longrightarrow>
      extract_package_name f \<noteq> None
      \<and> (CHR ''-'' \<notin> set f \<longrightarrow> extract_package_name f = Some (normalize f))
      \<and> (startswith f ''-'' \<longrightarrow>
            extract_package_name f = Some []
            \<and> generate_index hexdigest (Some (xs @ Entry f b c # ys)) t
                = generate_index hexdigest (Some (xs @ ys)) t))
   \<and> extract_package_name ''foo.whl'' = Some ''foo-whl''
   \<and> extract_package_name ''-1.0-py3-none-any.whl'' = Some []
   \<and> generate_index hexdigest (Some [Entry ''-1.0-py3-none-any.whl'' True c]) Map.empty
       = generate_index hexdigest (Some []) Map.empty"
proof -
  have ex: "extract_package_name ''foo.whl'' = Some ''foo-whl''"
    "extract_package_name ''-1.0-py3-none-any.whl'' = Some []"
    by code_simp+
  have drop: "generate_index hexdigest (Some (xs @ Entry f b c # ys)) t
          = generate_index hexdigest (Some (xs @ ys)) t"
    if "extract_package_name f = Some []" for f xs ys b t
  proof -
    from that have "pkg_of (Entry f b c) = None" by (simp add: pkg_of_def)
    then show ?thesis by (intro generate_index_groups groups_skip)
  qed
  have e: "extract_package_name f = Some []" if "endswith f ''.whl''" "startswith f ''-''"
    using that by (simp add: extract_whl leading_dash normalize_Nil)
  have n: "extract_package_name f = Some (normalize f)"
    if "endswith f ''.whl''" "CHR ''-'' \<notin> set f"
    using that by (simp add: extract_whl no_dash)
  from drop [OF ex(2), of "[]" True "[]" Map.empty]
  have d0: "generate_index hexdigest (Some [Entry ''-1.0-py3-none-any.whl'' True c]) Map.empty
       = generate_index hexdigest (Some []) Map.empty"
    by simp
  show ?thesis
    using ex d0 e n drop [of f xs b ys t] extract_whl [of f] by auto
qed

theorem whl_always_classified_witness:
  "endswith ''-1.0-py3-none-any.whl'' ''.whl'' \<and> startswith ''-1.0-py3-none-any.whl'' ''-''
   \<and> extract_package_name ''-1.0-py3-none-any.whl'' = Some []
   \<and> generate_index (\<lambda>b. ''00'')
        (Some ([Entry ''a-1.tar.gz'' True []] @ Entry ''-1.0-py3-none-any.whl'' True [] # [])) Map.empty
       = generate_index (\<lambda>b. ''00'') (Some ([Entry ''a-1.tar.gz'' True []] @ [])) Map.empty
   \<and> fst (generate_index (\<lambda>b. ''00'')
        (Some ([Entry ''a-1.tar.gz'' True []] @ Entry ''-1.0-py3-none-any.whl'' True [] # [])) Map.empty)
       = Inr ''Generated index: 1 packages, 1 files''
   \<and> endswith ''Foo.whl'' ''.whl'' \<and> CHR ''-'' \<notin> set ''Foo.whl''
   \<and> extract_package_name ''Foo.whl'' = Some ''foo-whl''"
proof -
  have h: "endswith ''-1.0-py3-none-any.whl'' ''.whl''" "startswith ''-1.0-py3-none-any.whl'' ''-''"
    "endswith ''Foo.whl'' ''.whl''" "CHR ''-'' \<notin> set ''Foo.whl''"
    by code_simp+
  have v: "normalize ''Foo.whl'' = ''foo-whl''" by code_simp
  have m: "fst (generate_index (\<lambda>b. ''00'')
        (Some ([Entry ''a-1.tar.gz'' True []] @ Entry ''-1.0-py3-none-any.whl'' True [] # [])) Map.empty)
       = Inr ''Generated index: 1 packages, 1 files''"
    by code_simp
  from whl_always_classified [of "''-1.0-py3-none-any.whl''" "\<lambda>b. ''00''"
      "[Entry ''a-1.tar.gz'' True []]" True "[]" "[]" Map.empty] h(1,2)
  have c1: "extract_package_name ''-1.0-py3-none-any.whl'' = Some []
     \<and> generate_index (\<lambda>b. ''00'')
        (Some ([Entry ''a-1.tar.gz'' True []] @ Entry ''-1.0-py3-none-any.whl'' True [] # [])) Map.empty
       = generate_index (\<lambda>b. ''00'') (Some ([Entry ''a-1.tar.gz'' True []] @ [])) Map.empty"
    by blast
  from whl_always_classified [of "''Foo.whl''" "\<lambda>b. ''00''" "[]" True "[]" "[]" Map.empty] h(3,4) v
  have c2: "extract_package_name ''Foo.whl'' = Some ''foo-whl''"
    by simp
  from h m c1 c2 show ?thesis by blast
qed

end
